theory Spec2Isabelle
  imports Complex_Main "HOL-Library.Char_ord" "HOL-Library.List_Lexorder"
begin


section \<open>Data model\<close>

text \<open>
  The program is \<^verbatim>\<open>src/titanic_analysis.py\<close>: class \<^verbatim>\<open>TitanicAnalyzer\<close> holds a pandas
  data frame and rewrites it column by column.  A row of the frame is a record with one
  field per column the program reads or writes; a cell is an \<open>option\<close>, \<open>None\<close> being the
  missing value (\<^verbatim>\<open>NaN\<close>).  Ages, fares and rates are numpy \<^verbatim>\<open>float64\<close> values in the
  program; here they are exact rationals, so a statement about them is a statement about the
  arithmetic the program approximates.  Counts are unbounded integers (the program's
  \<^verbatim>\<open>int64\<close> does not wrap below \<open>2^63\<close>).

  The pandas operations are modelled as pandas 1.5 to 2.x performs them, the versions on which
  the program's \<^verbatim>\<open>df[col].fillna(..., inplace=True)\<close> changes the frame: a group-by on a
  categorical column lists every category (\<^verbatim>\<open>observed=False\<close>), and a row with a missing
  group key belongs to no group.
\<close>

record passenger =
  PassengerId :: "int option"
  Survived :: "int option"
  Pclass :: "int option"
  Name :: "string option"
  Sex :: "string option"
  Age :: "rat option"
  SibSp :: "int option"
  Parch :: "int option"
  Ticket :: "string option"
  Fare :: "rat option"
  Cabin :: "string option"
  Embarked :: "string option"
  FamilySize :: "int option"
  IsAlone :: "int option"
  Title :: "string option"
  AgeGroup :: "string option"
  FareGroup :: "string option"

text \<open>A value of a categorical column: class numbers are integers, the others strings.\<close>

datatype catval = IntCat int | StrCat string

text \<open>
  A frame: the column names in order, the rows in order, and for each column of dtype
  \<^verbatim>\<open>category\<close> its list of categories.  A column that is not in \<open>columns\<close> is absent;
  in a frame read from a file the fields of an absent column are \<open>None\<close> in every row, and
  dropping a column clears its field, so that equal rows of the frame are equal records.
\<close>

record frame =
  columns :: "string list"
  rows :: "passenger list"
  categorical :: "(string \<times> catval list) list"

text \<open>The exceptions the cleaning and aggregation code can raise.\<close>

datatype error = KeyError | ValueError | AttributeError

text \<open>What \<^verbatim>\<open>clean_data\<close> prints about the actions it took.\<close>

record clean_log =
  duplicates_removed :: nat
  age_nulls :: "nat option"
  embarked_nulls :: "nat option"
  cabin_dropped :: bool
  remaining_nulls :: nat

section \<open>The pandas operations the program calls\<close>

fun dropna :: "'a option list \<Rightarrow> 'a list" where
  "dropna [] = []"
| "dropna (None # xs) = dropna xs"
| "dropna (Some x # xs) = x # dropna xs"

definition has_column :: "frame \<Rightarrow> string \<Rightarrow> bool" where
  "has_column d c \<longleftrightarrow> c \<in> set (columns d)"

text \<open>Assigning \<^verbatim>\<open>df[c] = ...\<close>: a new column goes last, an existing one keeps its place.\<close>

definition add_column :: "string \<Rightarrow> string list \<Rightarrow> string list" where
  "add_column c cs = (if c \<in> set cs then cs else cs @ [c])"

text \<open>Recording that a column has dtype \<^verbatim>\<open>category\<close> with the given categories.\<close>

fun set_dtype :: "string \<Rightarrow> catval list \<Rightarrow> (string \<times> catval list) list
    \<Rightarrow> (string \<times> catval list) list" where
  "set_dtype c cats [] = [(c, cats)]"
| "set_dtype c cats ((k, w) # kvs) =
     (if k = c then (c, cats) # kvs else (k, w) # set_dtype c cats kvs)"

text \<open>\<^verbatim>\<open>drop_duplicates\<close> keeps the first of every run of equal rows (\<^verbatim>\<open>NaN\<close> equals \<^verbatim>\<open>NaN\<close>).\<close>

fun drop_dups :: "'a list \<Rightarrow> 'a list \<Rightarrow> 'a list" where
  "drop_dups seen [] = []"
| "drop_dups seen (x # xs) =
     (if x \<in> set seen then drop_dups seen xs else x # drop_dups (x # seen) xs)"

definition drop_duplicates :: "'a list \<Rightarrow> 'a list" where
  "drop_duplicates xs = drop_dups [] xs"

text \<open>The categories \<^verbatim>\<open>astype("category")\<close> gives a column: its distinct values, sorted.\<close>

definition unique_sorted :: "('a::linorder) option list \<Rightarrow> 'a list" where
  "unique_sorted xs = sort (remdups (dropna xs))"

fun int_cats :: "catval option list \<Rightarrow> int option list" where
  "int_cats [] = []"
| "int_cats (Some (IntCat i) # vs) = Some i # int_cats vs"
| "int_cats (v # vs) = int_cats vs"

fun str_cats :: "catval option list \<Rightarrow> string option list" where
  "str_cats [] = []"
| "str_cats (Some (StrCat w) # vs) = Some w # str_cats vs"
| "str_cats (v # vs) = str_cats vs"

definition categories_of :: "catval option list \<Rightarrow> catval list" where
  "categories_of vs =
     map IntCat (unique_sorted (int_cats vs)) @ map StrCat (unique_sorted (str_cats vs))"

text \<open>\<^verbatim>\<open>Series.median\<close> skips missing values; of no value at all it is \<^verbatim>\<open>NaN\<close>.\<close>

definition median :: "rat list \<Rightarrow> rat option" where
  "median xs =
     (let s = sort xs; n = length s
      in if n = 0 then None
         else if odd n then Some (s ! (n div 2))
         else Some ((s ! (n div 2 - 1) + s ! (n div 2)) / 2))"

text \<open>
  \<^verbatim>\<open>Series.mode()[0]\<close> of a categorical column: the most frequent value, the first in
  category order among equally frequent ones; of a column with no value the index \<open>0\<close>
  does not exist.
\<close>

definition mode_first :: "string option list \<Rightarrow> error + string" where
  "mode_first xs =
     (let vs = dropna xs; cs = sort (remdups vs);
          best = fold max (map (count_list vs) cs) 0
      in case find (\<lambda>v. count_list vs v = best) cs of
           None \<Rightarrow> Inl KeyError
         | Some m \<Rightarrow> Inr m)"

text \<open>
  \<^verbatim>\<open>Series.quantile(q)\<close> with linear interpolation, on the values that are present:
  the value at position \<open>(n - 1) * q\<close> of the sorted values, between the two neighbours
  when the position is not whole (called on non-empty lists only).
\<close>

definition interpolate :: "rat list \<Rightarrow> rat \<Rightarrow> rat" where
  "interpolate s h =
     (let lo = nat \<lfloor>h\<rfloor>; hi = min (lo + 1) (length s - 1)
      in s ! lo + (h - rat_of_nat lo) * (s ! hi - s ! lo))"

definition quantile :: "rat list \<Rightarrow> rat \<Rightarrow> rat" where
  "quantile xs q = interpolate (sort xs) (rat_of_nat (length xs - 1) * q)"

text \<open>
  \<^verbatim>\<open>_bins_to_cuts\<close>, the core of \<^verbatim>\<open>pd.cut\<close> and \<^verbatim>\<open>pd.qcut\<close> with \<^verbatim>\<open>right=True\<close>:
  \<^verbatim>\<open>ids = bins.searchsorted(x, side="left")\<close> counts the edges below \<open>x\<close>; with
  \<^verbatim>\<open>include_lowest\<close> a value equal to the first edge gets id 1; id \<open>0\<close> and id
  \<open>len(bins)\<close> are outside every bin and give \<^verbatim>\<open>NaN\<close>.
\<close>

definition searchsorted_left :: "rat list \<Rightarrow> rat \<Rightarrow> nat" where
  "searchsorted_left bins x = length (takeWhile (\<lambda>b. b < x) bins)"

definition bins_to_cuts :: "rat list \<Rightarrow> string list \<Rightarrow> bool \<Rightarrow> rat \<Rightarrow> string option" where
  "bins_to_cuts bins labels include_lowest x =
     (let i = searchsorted_left bins x;
          ids = (if include_lowest \<and> bins \<noteq> [] \<and> x = hd bins then 1 else i)
      in if ids = 0 \<or> ids = length bins then None else Some (labels ! (ids - 1)))"

text \<open>\<^verbatim>\<open>pd.cut(x, bins, labels)\<close>: \<^verbatim>\<open>include_lowest\<close> is \<^verbatim>\<open>False\<close> by default.\<close>

definition cut :: "rat list \<Rightarrow> string list \<Rightarrow> rat option \<Rightarrow> string option" where
  "cut bins labels x = (case x of None \<Rightarrow> None | Some v \<Rightarrow> bins_to_cuts bins labels False v)"

text \<open>
  \<^verbatim>\<open>pd.qcut(x, q=4, labels)\<close>: the edges are the quantiles 0, 1/4, 1/2, 3/4, 1 of the values
  present; equal edges raise \<^verbatim>\<open>ValueError\<close> (\<^verbatim>\<open>duplicates="raise"\<close>), and so does a column
  with no value, whose edges are all \<^verbatim>\<open>NaN\<close>; the cut includes the lowest edge.
\<close>

definition quartile_edges :: "rat list \<Rightarrow> rat list option" where
  "quartile_edges xs =
     (if xs = [] then None
      else Some (map (quantile xs) [0, 1/4, 1/2, 3/4, 1]))"

definition qcut :: "rat option list \<Rightarrow> string list \<Rightarrow> error + (rat option \<Rightarrow> string option)" where
  "qcut xs labels =
     (case quartile_edges (dropna xs) of
        None \<Rightarrow> Inl ValueError
      | Some bins \<Rightarrow>
          if \<not> distinct bins then Inl ValueError
          else Inr (\<lambda>x. case x of None \<Rightarrow> None | Some v \<Rightarrow> bins_to_cuts bins labels True v))"


text \<open>
  \<^verbatim>\<open>Series.str.extract(" ([A-Za-z]+)\\. ", expand=False)\<close>: the group of the leftmost match of
  a space, a non-empty run of ASCII letters, a period and a space.  The run is greedy, and a
  shorter run is followed by a letter, never by the period, so at each space only the longest
  run can match.
\<close>

definition is_letter :: "char \<Rightarrow> bool" where
  "is_letter c \<longleftrightarrow> (CHR ''A'' \<le> c \<and> c \<le> CHR ''Z'') \<or> (CHR ''a'' \<le> c \<and> c \<le> CHR ''z'')"

fun extract_title :: "string \<Rightarrow> string option" where
  "extract_title [] = None"
| "extract_title (c # cs) =
     (if c = CHR '' '' \<and> takeWhile is_letter cs \<noteq> []
         \<and> take 2 (dropWhile is_letter cs) = ''. ''
      then Some (takeWhile is_letter cs)
      else extract_title cs)"

text \<open>
  \<^verbatim>\<open>value_counts()\<close> counts every value present; \<^verbatim>\<open>title_counts[title_counts < 10].index\<close>
  are the rare ones, and \<^verbatim>\<open>replace(rare_titles, "Rare")\<close> rewrites exactly those.
\<close>

definition value_counts :: "string option list \<Rightarrow> (string \<times> nat) list" where
  "value_counts ts = map (\<lambda>t. (t, count_list (dropna ts) t)) (remdups (dropna ts))"

definition rare_titles :: "string option list \<Rightarrow> string list" where
  "rare_titles ts = map fst (filter (\<lambda>(t, n). n < 10) (value_counts ts))"

definition replace_rare :: "string list \<Rightarrow> string option \<Rightarrow> string option" where
  "replace_rare rare t =
     (case t of None \<Rightarrow> None
      | Some v \<Rightarrow> if v \<in> set rare then Some ''Rare'' else Some v)"

section \<open>Column access by name\<close>

text \<open>The value of a column that can be grouped on, and whether a cell is missing.\<close>

definition cell :: "string \<Rightarrow> passenger \<Rightarrow> catval option" where
  "cell c r =
     (if c = ''Pclass'' then map_option IntCat (Pclass r)
      else if c = ''Sex'' then map_option StrCat (Sex r)
      else if c = ''Embarked'' then map_option StrCat (Embarked r)
      else if c = ''AgeGroup'' then map_option StrCat (AgeGroup r)
      else if c = ''Title'' then map_option StrCat (Title r)
      else if c = ''FareGroup'' then map_option StrCat (FareGroup r)
      else None)"

definition isnull :: "string \<Rightarrow> passenger \<Rightarrow> bool" where
  "isnull c r =
     (if c = ''PassengerId'' then PassengerId r = None
      else if c = ''Survived'' then Survived r = None
      else if c = ''Pclass'' then Pclass r = None
      else if c = ''Name'' then Name r = None
      else if c = ''Sex'' then Sex r = None
      else if c = ''Age'' then Age r = None
      else if c = ''SibSp'' then SibSp r = None
      else if c = ''Parch'' then Parch r = None
      else if c = ''Ticket'' then Ticket r = None
      else if c = ''Fare'' then Fare r = None
      else if c = ''Cabin'' then Cabin r = None
      else if c = ''Embarked'' then Embarked r = None
      else if c = ''FamilySize'' then FamilySize r = None
      else if c = ''IsAlone'' then IsAlone r = None
      else if c = ''Title'' then Title r = None
      else if c = ''AgeGroup'' then AgeGroup r = None
      else if c = ''FareGroup'' then FareGroup r = None
      else False)"

text \<open>\<^verbatim>\<open>df[c].isnull().sum()\<close> and \<^verbatim>\<open>df.isnull().sum().sum()\<close>.\<close>

definition null_count :: "string \<Rightarrow> passenger list \<Rightarrow> nat" where
  "null_count c rs = length (filter (isnull c) rs)"

definition total_nulls :: "frame \<Rightarrow> nat" where
  "total_nulls d = sum_list (map (\<lambda>c. null_count c (rows d)) (columns d))"


section \<open>\<^verbatim>\<open>TitanicAnalyzer.clean_data\<close>\<close>

text \<open>
  The method works on a copy of the loaded frame (it returns at once when nothing is loaded)
  and changes the copy step by step; every step below takes the frame and returns the new
  one, and a step that can raise returns a sum.
\<close>

text \<open>Step 1, \<^verbatim>\<open>drop_duplicates(inplace=True)\<close>.\<close>

definition remove_duplicates :: "frame \<Rightarrow> frame" where
  "remove_duplicates d = d\<lparr>rows := drop_duplicates (rows d)\<rparr>"

text \<open>
  Step 2, \<^verbatim>\<open>astype("category")\<close> on the columns of \<^verbatim>\<open>categorical_cols\<close> that exist.  A column
  that is categorical already keeps its categories.
\<close>

definition astype_category :: "string \<Rightarrow> frame \<Rightarrow> frame" where
  "astype_category c d =
     (case map_of (categorical d) c of
        Some cats \<Rightarrow> d
      | None \<Rightarrow>
          d\<lparr>categorical := set_dtype c (categories_of (map (cell c) (rows d))) (categorical d)\<rparr>)"

definition categorical_cols :: "string list" where
  "categorical_cols = [''Pclass'', ''Sex'', ''Embarked'']"

definition convert_categorical :: "frame \<Rightarrow> frame" where
  "convert_categorical d =
     fold (\<lambda>col d'. if has_column d' col then astype_category col d' else d') categorical_cols d"

text \<open>
  Step 3, age.  \<^verbatim>\<open>groupby(["Pclass", "Sex"])["Age"].transform("median")\<close> gives every row the
  median of the ages present in its group; a row whose class or sex is missing belongs to no
  group and gets \<^verbatim>\<open>NaN\<close>.  The group-by raises \<^verbatim>\<open>KeyError\<close> when a key column is absent.
  \<^verbatim>\<open>fillna\<close> then replaces the missing ages only.
\<close>

definition group_ages :: "passenger list \<Rightarrow> int \<Rightarrow> string \<Rightarrow> rat list" where
  "group_ages rs c s = dropna (map Age (filter (\<lambda>r. Pclass r = Some c \<and> Sex r = Some s) rs))"

definition age_median :: "passenger list \<Rightarrow> passenger \<Rightarrow> rat option" where
  "age_median rs r =
     (case (Pclass r, Sex r) of
        (Some c, Some s) \<Rightarrow> median (group_ages rs c s)
      | _ \<Rightarrow> None)"

definition fillna :: "'a option \<Rightarrow> 'a option \<Rightarrow> 'a option" where
  "fillna v x = (case x of None \<Rightarrow> v | Some y \<Rightarrow> Some y)"

definition fill_age :: "frame \<Rightarrow> error + frame \<times> nat option" where
  "fill_age d =
     (if has_column d ''Age'' then
        if has_column d ''Pclass'' \<and> has_column d ''Sex'' then
          Inr (d\<lparr>rows := map (\<lambda>r. r\<lparr>Age := fillna (age_median (rows d) r) (Age r)\<rparr>) (rows d)\<rparr>,
               Some (null_count ''Age'' (rows d)))
        else Inl KeyError
      else Inr (d, None))"

text \<open>Step 3, embarkation port: filled with the mode when a value is missing.\<close>

definition fill_embarked :: "frame \<Rightarrow> error + frame \<times> nat option" where
  "fill_embarked d =
     (if has_column d ''Embarked'' then
        let embarked_nulls = null_count ''Embarked'' (rows d)
        in if embarked_nulls > 0 then
             case mode_first (map Embarked (rows d)) of
               Inl e \<Rightarrow> Inl e
             | Inr mode_embarked \<Rightarrow>
                 Inr (d\<lparr>rows := map (\<lambda>r. r\<lparr>Embarked := fillna (Some mode_embarked) (Embarked r)\<rparr>)
                                  (rows d)\<rparr>,
                      Some embarked_nulls)
           else Inr (d, Some embarked_nulls)
      else Inr (d, None))"

text \<open>
  Step 3, cabin: \<^verbatim>\<open>cabin_null_pct = cabin_nulls / len(df) * 100\<close>, and the column goes
  when this exceeds 70.  A dropped column leaves no value behind in the rows.
\<close>

definition cabin_null_pct :: "passenger list \<Rightarrow> rat" where
  "cabin_null_pct rs = rat_of_nat (null_count ''Cabin'' rs) / rat_of_nat (length rs) * 100"

definition drop_cabin :: "frame \<Rightarrow> frame \<times> bool" where
  "drop_cabin d =
     (if has_column d ''Cabin'' then
        if cabin_null_pct (rows d) > 70 then
          (d\<lparr>columns := removeAll ''Cabin'' (columns d),
             rows := map (\<lambda>r. r\<lparr>Cabin := None\<rparr>) (rows d)\<rparr>, True)
        else (d, False)
      else (d, False))"

text \<open>
  Step 4, family size: \<^verbatim>\<open>SibSp + Parch + 1\<close> (missing when either count is), and
  \<^verbatim>\<open>(FamilySize == 1).astype(int)\<close>.
\<close>

definition family_size :: "passenger \<Rightarrow> int option" where
  "family_size r =
     (case (SibSp r, Parch r) of
        (Some s, Some p) \<Rightarrow> Some (s + p + 1)
      | _ \<Rightarrow> None)"

definition family_features :: "frame \<Rightarrow> frame" where
  "family_features d =
     (if has_column d ''SibSp'' \<and> has_column d ''Parch'' then
        d\<lparr>columns := add_column ''IsAlone'' (add_column ''FamilySize'' (columns d)),
          rows := map (\<lambda>r. r\<lparr>FamilySize := family_size r,
                               IsAlone := Some (if family_size r = Some 1 then 1 else 0)\<rparr>)
                      (rows d)\<rparr>
      else d)"

text \<open>
  Step 4, title.  The \<^verbatim>\<open>.str\<close> accessor raises \<^verbatim>\<open>AttributeError\<close> on a column that holds
  no string at all (a non-empty column of missing values is a float column).
\<close>

definition extracted_titles :: "passenger list \<Rightarrow> string option list" where
  "extracted_titles rs = map (\<lambda>r. Option.bind (Name r) extract_title) rs"

definition title_feature :: "frame \<Rightarrow> error + frame" where
  "title_feature d =
     (if has_column d ''Name'' then
        if rows d \<noteq> [] \<and> (\<forall>r \<in> set (rows d). Name r = None) then Inl AttributeError
        else
          let rare = rare_titles (extracted_titles (rows d));
              rs = map (\<lambda>r. r\<lparr>Title := replace_rare rare (Option.bind (Name r) extract_title)\<rparr>)
                       (rows d)
          in Inr (d\<lparr>columns := add_column ''Title'' (columns d),
                    rows := rs,
                    categorical := set_dtype ''Title'' (categories_of (map (cell ''Title'') rs))
                                     (categorical d)\<rparr>)
      else Inr d)"

text \<open>Step 4, age groups: \<^verbatim>\<open>pd.cut\<close> with the bins and labels of the source.\<close>

definition age_bins :: "rat list" where
  "age_bins = [0, 12, 18, 35, 60, 100]"

definition age_labels :: "string list" where
  "age_labels = [''Child'', ''Teen'', ''Adult'', ''Middle-aged'', ''Senior'']"

definition age_groups :: "frame \<Rightarrow> frame" where
  "age_groups d =
     (if has_column d ''Age'' then
        d\<lparr>columns := add_column ''AgeGroup'' (columns d),
          rows := map (\<lambda>r. r\<lparr>AgeGroup := cut age_bins age_labels (Age r)\<rparr>) (rows d),
          categorical := set_dtype ''AgeGroup'' (map StrCat age_labels) (categorical d)\<rparr>
      else d)"

text \<open>Step 4, fare groups: \<^verbatim>\<open>pd.qcut\<close> into four quantile bins.\<close>

definition fare_labels :: "string list" where
  "fare_labels = [''Low'', ''Medium'', ''High'', ''Very High'']"

definition fare_groups :: "frame \<Rightarrow> error + frame" where
  "fare_groups d =
     (if has_column d ''Fare'' then
        case qcut (map Fare (rows d)) fare_labels of
          Inl e \<Rightarrow> Inl e
        | Inr label_of \<Rightarrow>
            Inr (d\<lparr>columns := add_column ''FareGroup'' (columns d),
                   rows := map (\<lambda>r. r\<lparr>FareGroup := label_of (Fare r)\<rparr>) (rows d),
                   categorical := set_dtype ''FareGroup'' (map StrCat fare_labels) (categorical d)\<rparr>)
      else Inr d)"

text \<open>The whole method: the cleaned frame and what was printed about the actions.\<close>

definition clean_data :: "frame \<Rightarrow> error + frame \<times> clean_log" where
  "clean_data df =
     (let d1 = remove_duplicates df;
          removed = length (rows df) - length (rows d1);
          d2 = convert_categorical d1
      in case fill_age d2 of
           Inl e \<Rightarrow> Inl e
         | Inr (d3, age_filled) \<Rightarrow>
        (case fill_embarked d3 of
           Inl e \<Rightarrow> Inl e
         | Inr (d4, embarked_filled) \<Rightarrow>
        (case drop_cabin d4 of (d5, dropped) \<Rightarrow>
        (case title_feature (family_features d5) of
           Inl e \<Rightarrow> Inl e
         | Inr d7 \<Rightarrow>
        (case fare_groups (age_groups d7) of
           Inl e \<Rightarrow> Inl e
         | Inr d9 \<Rightarrow>
             Inr (d9, \<lparr>duplicates_removed = removed, age_nulls = age_filled,
                       embarked_nulls = embarked_filled, cabin_dropped = dropped,
                       remaining_nulls = total_nulls d9\<rparr>))))))"

section \<open>\<^verbatim>\<open>TitanicAnalyzer.analyze_survival_patterns\<close>\<close>











section \<open>Sample frames\<close>

text \<open>
  The columns of the passenger file, and rows in the shape \<^verbatim>\<open>read_csv\<close> gives them: the
  derived columns do not exist yet.
\<close>

definition raw_columns :: "string list" where
  "raw_columns = [''PassengerId'', ''Survived'', ''Pclass'', ''Name'', ''Sex'', ''Age'', ''SibSp'',
     ''Parch'', ''Ticket'', ''Fare'', ''Cabin'', ''Embarked'']"

definition raw_row :: "int \<Rightarrow> int \<Rightarrow> int \<Rightarrow> string \<Rightarrow> string \<Rightarrow> rat option \<Rightarrow> int \<Rightarrow> int
    \<Rightarrow> rat \<Rightarrow> string option \<Rightarrow> string option \<Rightarrow> passenger" where
  "raw_row i sv pc nm sx ag sb pa fr cb em =
     \<lparr>PassengerId = Some i, Survived = Some sv, Pclass = Some pc, Name = Some nm, Sex = Some sx,
      Age = ag, SibSp = Some sb, Parch = Some pa, Ticket = Some ''PC 17599'', Fare = Some fr,
      Cabin = cb, Embarked = em, FamilySize = None, IsAlone = None, Title = None,
      AgeGroup = None, FareGroup = None\<rparr>"

definition cleaned_row :: "passenger \<Rightarrow> int \<Rightarrow> int \<Rightarrow> string option \<Rightarrow> string option
    \<Rightarrow> string option \<Rightarrow> passenger" where
  "cleaned_row r fs al ti ag fg =
     r\<lparr>FamilySize := Some fs, IsAlone := Some al, Title := ti, AgeGroup := ag, FareGroup := fg\<rparr>"

definition cleaned_columns :: "string list" where
  "cleaned_columns = [''PassengerId'', ''Survived'', ''Pclass'', ''Name'', ''Sex'', ''Age'',
     ''SibSp'', ''Parch'', ''Ticket'', ''Fare'', ''Embarked'', ''FamilySize'', ''IsAlone'', ''Title'',
     ''AgeGroup'', ''FareGroup'']"

text \<open>
  Six passengers: three women of whom two survived, three men of whom one survived; the
  groups (1, female) and (3, male) have one known and one missing age each, the group
  (2, male) has no known age; one child of age 0; one missing port; five of six cabins
  missing; one name whose period is not followed by a space.
\<close>

definition sample :: frame where
  "sample = \<lparr>columns = raw_columns,
     rows = [raw_row 1 1 1 ''Cumings, Mrs. John'' ''female'' (Some 38) 1 0 70 (Some ''C85'') (Some ''C''),
             raw_row 2 1 1 ''Futrelle, Mrs. Jacques'' ''female'' None 1 0 50 None (Some ''S''),
             raw_row 3 0 3 ''Heikkinen, Miss. Laina'' ''female'' (Some 0) 0 2 10 None (Some ''S''),
             raw_row 4 0 3 ''Braund, Mr. Owen'' ''male'' (Some 22) 1 0 20 None (Some ''S''),
             raw_row 5 1 3 ''Moran, Mr. James'' ''male'' None 0 0 30 None None,
             raw_row 6 0 2 ''Smith, Mr.John'' ''male'' None 0 0 40 None (Some ''S'')],
     categorical = []\<rparr>"

definition sample_dtypes :: "(string \<times> catval list) list" where
  "sample_dtypes =
     [(''Pclass'', [IntCat 1, IntCat 2, IntCat 3]),
      (''Sex'', [StrCat ''female'', StrCat ''male'']),
      (''Embarked'', [StrCat ''C'', StrCat ''S'']),
      (''Title'', [StrCat ''Rare'']),
      (''AgeGroup'', [StrCat ''Child'', StrCat ''Teen'', StrCat ''Adult'', StrCat ''Middle-aged'',
                      StrCat ''Senior'']),
      (''FareGroup'', [StrCat ''Low'', StrCat ''Medium'', StrCat ''High'', StrCat ''Very High''])]"

definition sample_cleaned :: frame where
  "sample_cleaned = \<lparr>columns = cleaned_columns,
     rows = [cleaned_row (raw_row 1 1 1 ''Cumings, Mrs. John'' ''female'' (Some 38) 1 0 70 None (Some ''C''))
               2 0 (Some ''Rare'') (Some ''Middle-aged'') (Some ''Very High''),
             cleaned_row (raw_row 2 1 1 ''Futrelle, Mrs. Jacques'' ''female'' (Some 38) 1 0 50 None (Some ''S''))
               2 0 (Some ''Rare'') (Some ''Middle-aged'') (Some ''Very High''),
             cleaned_row (raw_row 3 0 3 ''Heikkinen, Miss. Laina'' ''female'' (Some 0) 0 2 10 None (Some ''S''))
               3 0 (Some ''Rare'') None (Some ''Low''),
             cleaned_row (raw_row 4 0 3 ''Braund, Mr. Owen'' ''male'' (Some 22) 1 0 20 None (Some ''S''))
               2 0 (Some ''Rare'') (Some ''Adult'') (Some ''Low''),
             cleaned_row (raw_row 5 1 3 ''Moran, Mr. James'' ''male'' (Some 22) 0 0 30 None (Some ''S''))
               1 1 (Some ''Rare'') (Some ''Adult'') (Some ''Medium''),
             cleaned_row (raw_row 6 0 2 ''Smith, Mr.John'' ''male'' None 0 0 40 None (Some ''S''))
               1 1 None None (Some ''High'')],
     categorical = sample_dtypes\<rparr>"

definition sample_log :: clean_log where
  "sample_log = \<lparr>duplicates_removed = 0, age_nulls = Some 3, embarked_nulls = Some 1,
     cabin_dropped = True, remaining_nulls = 4\<rparr>"

text \<open>
  Four passengers in two (class, sex) groups, each group with one known and one missing age;
  the fares are 10, 20, 30 and 40.
\<close>

definition two_groups :: frame where
  "two_groups = \<lparr>columns = raw_columns,
     rows = [raw_row 1 1 1 ''Cumings, Mrs. John'' ''female'' (Some 38) 1 0 10 None (Some ''S''),
             raw_row 2 1 1 ''Futrelle, Mrs. Jacques'' ''female'' None 1 0 20 None None,
             raw_row 3 0 3 ''Braund, Mr. Owen'' ''male'' (Some 22) 1 0 30 None (Some ''S''),
             raw_row 4 0 3 ''Moran, Mr. James'' ''male'' None 0 0 40 None (Some ''C'')],
     categorical = []\<rparr>"

definition two_groups_dtypes :: "(string \<times> catval list) list" where
  "two_groups_dtypes =
     [(''Pclass'', [IntCat 1, IntCat 3]),
      (''Sex'', [StrCat ''female'', StrCat ''male'']),
      (''Embarked'', [StrCat ''C'', StrCat ''S'']),
      (''Title'', [StrCat ''Rare'']),
      (''AgeGroup'', [StrCat ''Child'', StrCat ''Teen'', StrCat ''Adult'', StrCat ''Middle-aged'',
                      StrCat ''Senior'']),
      (''FareGroup'', [StrCat ''Low'', StrCat ''Medium'', StrCat ''High'', StrCat ''Very High''])]"

definition two_groups_cleaned :: frame where
  "two_groups_cleaned = \<lparr>columns = cleaned_columns,
     rows = [cleaned_row (raw_row 1 1 1 ''Cumings, Mrs. John'' ''female'' (Some 38) 1 0 10 None (Some ''S''))
               2 0 (Some ''Rare'') (Some ''Middle-aged'') (Some ''Low''),
             cleaned_row (raw_row 2 1 1 ''Futrelle, Mrs. Jacques'' ''female'' (Some 38) 1 0 20 None (Some ''S''))
               2 0 (Some ''Rare'') (Some ''Middle-aged'') (Some ''Medium''),
             cleaned_row (raw_row 3 0 3 ''Braund, Mr. Owen'' ''male'' (Some 22) 1 0 30 None (Some ''S''))
               2 0 (Some ''Rare'') (Some ''Adult'') (Some ''High''),
             cleaned_row (raw_row 4 0 3 ''Moran, Mr. James'' ''male'' (Some 22) 0 0 40 None (Some ''C''))
               1 1 (Some ''Rare'') (Some ''Adult'') (Some ''Very High'')],
     categorical = two_groups_dtypes\<rparr>"

definition two_groups_log :: clean_log where
  "two_groups_log = \<lparr>duplicates_removed = 0, age_nulls = Some 2, embarked_nulls = Some 1,
     cabin_dropped = True, remaining_nulls = 0\<rparr>"

text \<open>
  A hundred passengers known by number and cabin only; the first \<open>k\<close> have no cabin.
\<close>

definition blank_row :: passenger where
  "blank_row = \<lparr>PassengerId = None, Survived = None, Pclass = None, Name = None, Sex = None,
      Age = None, SibSp = None, Parch = None, Ticket = None, Fare = None, Cabin = None,
      Embarked = None, FamilySize = None, IsAlone = None, Title = None, AgeGroup = None,
      FareGroup = None\<rparr>"

definition cabin_rows :: "nat \<Rightarrow> passenger list" where
  "cabin_rows k =
     map (\<lambda>i. blank_row\<lparr>PassengerId := Some (int i),
                          Cabin := (if i < k then None else Some ''B96'')\<rparr>) [0..<100]"

definition cabin_frame :: "nat \<Rightarrow> frame" where
  "cabin_frame k = \<lparr>columns = [''PassengerId'', ''Cabin''], rows = cabin_rows k, categorical = []\<rparr>"

definition cabin_frame_dropped :: frame where
  "cabin_frame_dropped = \<lparr>columns = [''PassengerId''], rows = cabin_rows 100, categorical = []\<rparr>"

definition cabin_log :: "bool \<Rightarrow> nat \<Rightarrow> clean_log" where
  "cabin_log dropped nulls = \<lparr>duplicates_removed = 0, age_nulls = None, embarked_nulls = None,
     cabin_dropped = dropped, remaining_nulls = nulls\<rparr>"

text \<open>
  Twelve passengers known by number and name only: ten titled \<open>Mr\<close> and two titled \<open>Mrs\<close>.
\<close>

definition title_rows :: "string \<Rightarrow> passenger list" where
  "title_rows rare =
     map (\<lambda>i. blank_row\<lparr>PassengerId := Some (int i),
                          Name := Some (if i < 10 then ''Kelly, Mr. James'' else ''Kelly, Mrs. Anna''),
                          Title := (if rare = [] then None
                                    else Some (if i < 10 then ''Mr'' else rare))\<rparr>) [0..<12]"

definition titles_frame :: frame where
  "titles_frame = \<lparr>columns = [''PassengerId'', ''Name''], rows = title_rows [], categorical = []\<rparr>"

definition titles_cleaned :: frame where
  "titles_cleaned = \<lparr>columns = [''PassengerId'', ''Name'', ''Title''], rows = title_rows ''Rare'',
     categorical = [(''Title'', [StrCat ''Mr'', StrCat ''Rare''])]\<rparr>"

definition titles_log :: clean_log where
  "titles_log = \<lparr>duplicates_removed = 0, age_nulls = None, embarked_nulls = None,
     cabin_dropped = False, remaining_nulls = 0\<rparr>"





text \<open>
  Six records of five passengers: passenger 2 is recorded twice, once without her age.  All
  cabins are known, so the cabin column stays.
\<close>

definition kept_columns :: "string list" where
  "kept_columns = raw_columns @ [''FamilySize'', ''IsAlone'', ''Title'', ''AgeGroup'', ''FareGroup'']"

definition twins :: frame where
  "twins = \<lparr>columns = raw_columns,
     rows = [raw_row 1 0 3 ''Braund, Mr. Owen'' ''male'' (Some 22) 1 0 10 (Some ''E46'') (Some ''S''),
             raw_row 2 1 1 ''Cumings, Mrs. John'' ''female'' (Some 38) 1 0 50 (Some ''C85'') (Some ''C''),
             raw_row 2 1 1 ''Cumings, Mrs. John'' ''female'' None 1 0 50 (Some ''C85'') (Some ''C''),
             raw_row 3 1 3 ''Heikkinen, Miss. Laina'' ''female'' (Some 26) 0 0 20 (Some ''G6'') (Some ''S''),
             raw_row 4 1 1 ''Futrelle, Mrs. Jacques'' ''female'' (Some 38) 1 0 40 (Some ''C123'') (Some ''S''),
             raw_row 5 0 3 ''Allen, Mr. William'' ''male'' (Some 35) 0 0 30 (Some ''F2'') (Some ''S'')],
     categorical = []\<rparr>"

definition twin_record :: passenger where
  "twin_record =
     cleaned_row (raw_row 2 1 1 ''Cumings, Mrs. John'' ''female'' (Some 38) 1 0 50 (Some ''C85'') (Some ''C''))
       2 0 (Some ''Rare'') (Some ''Middle-aged'') (Some ''Very High'')"

definition twins_cleaned :: frame where
  "twins_cleaned = \<lparr>columns = kept_columns,
     rows = [cleaned_row (raw_row 1 0 3 ''Braund, Mr. Owen'' ''male'' (Some 22) 1 0 10 (Some ''E46'') (Some ''S''))
               2 0 (Some ''Rare'') (Some ''Adult'') (Some ''Low''),
             twin_record,
             twin_record,
             cleaned_row (raw_row 3 1 3 ''Heikkinen, Miss. Laina'' ''female'' (Some 26) 0 0 20 (Some ''G6'') (Some ''S''))
               1 1 (Some ''Rare'') (Some ''Adult'') (Some ''Low''),
             cleaned_row (raw_row 4 1 1 ''Futrelle, Mrs. Jacques'' ''female'' (Some 38) 1 0 40 (Some ''C123'') (Some ''S''))
               2 0 (Some ''Rare'') (Some ''Middle-aged'') (Some ''High''),
             cleaned_row (raw_row 5 0 3 ''Allen, Mr. William'' ''male'' (Some 35) 0 0 30 (Some ''F2'') (Some ''S''))
               1 1 (Some ''Rare'') (Some ''Adult'') (Some ''Medium'')],
     categorical = two_groups_dtypes\<rparr>"

definition twins_recleaned :: frame where
  "twins_recleaned = \<lparr>columns = kept_columns,
     rows = [cleaned_row (raw_row 1 0 3 ''Braund, Mr. Owen'' ''male'' (Some 22) 1 0 10 (Some ''E46'') (Some ''S''))
               2 0 (Some ''Rare'') (Some ''Adult'') (Some ''Low''),
             twin_record,
             cleaned_row (raw_row 3 1 3 ''Heikkinen, Miss. Laina'' ''female'' (Some 26) 0 0 20 (Some ''G6'') (Some ''S''))
               1 1 (Some ''Rare'') (Some ''Adult'') (Some ''Low''),
             cleaned_row (raw_row 4 1 1 ''Futrelle, Mrs. Jacques'' ''female'' (Some 38) 1 0 40 (Some ''C123'') (Some ''S''))
               2 0 (Some ''Rare'') (Some ''Middle-aged'') (Some ''High''),
             cleaned_row (raw_row 5 0 3 ''Allen, Mr. William'' ''male'' (Some 35) 0 0 30 (Some ''F2'') (Some ''S''))
               1 1 (Some ''Rare'') (Some ''Adult'') (Some ''Medium'')],
     categorical = two_groups_dtypes\<rparr>"

definition rerun_log :: "nat \<Rightarrow> nat \<Rightarrow> clean_log" where
  "rerun_log removed ages = \<lparr>duplicates_removed = removed, age_nulls = Some ages,
     embarked_nulls = Some 0, cabin_dropped = False, remaining_nulls = 0\<rparr>"

section \<open>Notions of the specification\<close>

text \<open>
  A median of a list of values: at least half of the values are not above it and at least
  half are not below it.
\<close>

definition is_median :: "rat list \<Rightarrow> rat \<Rightarrow> bool" where
  "is_median xs m \<longleftrightarrow>
     length xs \<le> 2 * length (filter (\<lambda>x. x \<le> m) xs) \<and>
     length xs \<le> 2 * length (filter (\<lambda>x. m \<le> x) xs)"

text \<open>
  A match of the title pattern of the source in a name: after \<open>pre\<close> come a space, the
  non-empty run of letters \<open>w\<close>, a period and a space.
\<close>

definition title_match :: "string \<Rightarrow> string \<Rightarrow> string \<Rightarrow> string \<Rightarrow> bool" where
  "title_match name pre w post \<longleftrightarrow>
     name = pre @ '' '' @ w @ ''. '' @ post \<and> w \<noteq> [] \<and> list_all is_letter w"

text \<open>
  The pattern as the specification words it, a word followed by a period and preceded by a
  space: nothing is asked of what follows the period.
\<close>

definition spec_title_match :: "string \<Rightarrow> string \<Rightarrow> string \<Rightarrow> string \<Rightarrow> bool" where
  "spec_title_match name pre w post \<longleftrightarrow>
     name = pre @ '' '' @ w @ ''.'' @ post \<and> w \<noteq> [] \<and> list_all is_letter w"

section \<open>How each step changes the frame\<close>

text \<open>
  A run of \<open>clean_data\<close> that returns went through every step; each step rewrites a fixed
  set of fields of every row and leaves the other fields, and the order of the rows, alone.
\<close>

lemma clean_data_steps:
  assumes "clean_data df = Inr (d, lg)"
  obtains d3 n3 d4 n4 d7 where
    "fill_age (convert_categorical (remove_duplicates df)) = Inr (d3, n3)"
    "fill_embarked d3 = Inr (d4, n4)"
    "title_feature (family_features (fst (drop_cabin d4))) = Inr d7"
    "fare_groups (age_groups d7) = Inr d"
    "lg = \<lparr>duplicates_removed = length (rows df) - length (rows (remove_duplicates df)),
           age_nulls = n3, embarked_nulls = n4, cabin_dropped = snd (drop_cabin d4),
           remaining_nulls = total_nulls d\<rparr>"
  using assms unfolding clean_data_def Let_def
  by (auto split: sum.splits prod.splits)

lemma remove_duplicates_simps [simp]:
  "rows (remove_duplicates d) = drop_duplicates (rows d)"
  "columns (remove_duplicates d) = columns d"
  "categorical (remove_duplicates d) = categorical d"
  by (simp_all add: remove_duplicates_def)

lemma astype_category_simps [simp]:
  "rows (astype_category c d) = rows d"
  "columns (astype_category c d) = columns d"
  by (simp_all add: astype_category_def split: option.splits)

lemma has_column_astype [simp]: "has_column (astype_category c d) c' = has_column d c'"
  by (simp add: has_column_def)

lemma convert_categorical_simps [simp]:
  "rows (convert_categorical d) = rows d"
  "columns (convert_categorical d) = columns d"
  by (simp_all add: convert_categorical_def categorical_cols_def)

lemma fill_age_rows:
  assumes "fill_age d = Inr (d', n)"
  shows "columns d' = columns d" "categorical d' = categorical d"
    "rows d' = map (\<lambda>r. r\<lparr>Age := (if has_column d ''Age'' then fillna (age_median (rows d) r) (Age r) else Age r)\<rparr>) (rows d)"
  using assms by (auto simp: fill_age_def split: if_splits)

lemma fill_embarked_rows:
  assumes "fill_embarked d = Inr (d', n)"
  shows "columns d' = columns d" "categorical d' = categorical d"
    "\<exists>g. rows d' = map (\<lambda>r. r\<lparr>Embarked := g r\<rparr>) (rows d)"
  using assms
    apply (auto simp: fill_embarked_def Let_def split: if_splits sum.splits)
   apply (rule exI[of _ Embarked], simp)+
  done

lemma drop_cabin_rows:
  "categorical (fst (drop_cabin d)) = categorical d"
  "\<exists>g. rows (fst (drop_cabin d)) = map (\<lambda>r. r\<lparr>Cabin := g r\<rparr>) (rows d)"
  "c \<noteq> ''Cabin'' \<Longrightarrow> has_column (fst (drop_cabin d)) c = has_column d c"
    apply (auto simp: drop_cabin_def has_column_def)
   apply (rule exI[of _ Cabin], simp)+
  done

lemma family_features_rows:
  "categorical (family_features d) = categorical d"
  "has_column d ''SibSp'' \<Longrightarrow> has_column d ''Parch'' \<Longrightarrow> rows (family_features d) =
     map (\<lambda>r. r\<lparr>FamilySize := family_size r,
                  IsAlone := Some (if family_size r = Some 1 then 1 else 0)\<rparr>) (rows d)"
  "c \<noteq> ''FamilySize'' \<Longrightarrow> c \<noteq> ''IsAlone'' \<Longrightarrow> has_column (family_features d) c = has_column d c"
  by (auto simp: family_features_def has_column_def add_column_def)

lemma family_features_rows_gen:
  "\<exists>g h. rows (family_features d) = map (\<lambda>r. r\<lparr>FamilySize := g r, IsAlone := h r\<rparr>) (rows d)"
proof (cases "has_column d ''SibSp'' \<and> has_column d ''Parch''")
  case True
  then have "rows (family_features d) =
     map (\<lambda>r. r\<lparr>FamilySize := family_size r,
                  IsAlone := (\<lambda>r. Some (if family_size r = Some 1 then 1 else 0)) r\<rparr>) (rows d)"
    using family_features_rows(2)[of d] by simp
  then show ?thesis
    by (rule_tac x = family_size in exI,
        rule_tac x = "\<lambda>r. Some (if family_size r = Some 1 then 1 else 0)" in exI)
next
  case False
  then have "rows (family_features d) = map (\<lambda>r. r\<lparr>FamilySize := FamilySize r, IsAlone := IsAlone r\<rparr>) (rows d)"
    by (auto simp: family_features_def)
  then show ?thesis
    by (rule_tac x = FamilySize in exI, rule_tac x = IsAlone in exI)
qed

lemma title_feature_rows:
  assumes "title_feature d = Inr d'"
  shows "has_column d ''Name'' \<Longrightarrow> rows d' =
      map (\<lambda>r. r\<lparr>Title := replace_rare (rare_titles (extracted_titles (rows d)))
                             (Option.bind (Name r) extract_title)\<rparr>) (rows d)"
    "c \<noteq> ''Title'' \<Longrightarrow> has_column d' c = has_column d c"
    "\<exists>g. rows d' = map (\<lambda>r. r\<lparr>Title := g r\<rparr>) (rows d)"
  using assms
    apply (auto simp: title_feature_def has_column_def add_column_def Let_def split: if_splits)
  apply (rule exI[of _ Title], simp)+
  done

lemma age_groups_rows:
  "has_column d ''Age'' \<Longrightarrow> rows (age_groups d) =
      map (\<lambda>r. r\<lparr>AgeGroup := cut age_bins age_labels (Age r)\<rparr>) (rows d)"
  "c \<noteq> ''AgeGroup'' \<Longrightarrow> has_column (age_groups d) c = has_column d c"
  "\<exists>g. rows (age_groups d) = map (\<lambda>r. r\<lparr>AgeGroup := g r\<rparr>) (rows d)"
    apply (auto simp: age_groups_def has_column_def add_column_def)
  apply (rule exI[of _ AgeGroup], simp)+
  done

lemma fare_groups_rows:
  assumes "fare_groups d = Inr d'"
  shows "\<exists>g. rows d' = map (\<lambda>r. r\<lparr>FareGroup := g r\<rparr>) (rows d)"
    "has_column d ''Fare'' \<Longrightarrow> \<exists>g. qcut (map Fare (rows d)) fare_labels = Inr g \<and> rows d' = map (\<lambda>r. r\<lparr>FareGroup := g (Fare r)\<rparr>) (rows d)"
    "c \<noteq> ''FareGroup'' \<Longrightarrow> has_column d' c = has_column d c"
  using assms
    apply (auto simp: fare_groups_def has_column_def add_column_def Let_def split: if_splits sum.splits)
   apply (rule exI[of _ FareGroup], simp)+
  done

lemma has_column_cong: "columns d' = columns d \<Longrightarrow> has_column d' c = has_column d c"
  by (simp add: has_column_def)

lemma clean_data_has_column:
  assumes "clean_data df = Inr (d, lg)"
    and "c \<noteq> ''Cabin''" "c \<noteq> ''FamilySize''" "c \<noteq> ''IsAlone''" "c \<noteq> ''Title''"
      "c \<noteq> ''AgeGroup''" "c \<noteq> ''FareGroup''"
  shows "has_column d c = has_column df c"
proof -
  from assms(1) obtain d3 n3 d4 n4 d7 where
    s: "fill_age (convert_categorical (remove_duplicates df)) = Inr (d3, n3)"
    "fill_embarked d3 = Inr (d4, n4)"
    "title_feature (family_features (fst (drop_cabin d4))) = Inr d7"
    "fare_groups (age_groups d7) = Inr d"
    by (rule clean_data_steps)
  have "has_column d c = has_column d7 c"
    using fare_groups_rows(3)[OF s(4)] age_groups_rows(2) assms by simp
  also have "\<dots> = has_column d4 c"
    using title_feature_rows(2)[OF s(3)] family_features_rows(3) drop_cabin_rows(3) assms by simp
  also have "\<dots> = has_column df c"
    using fill_embarked_rows(1)[OF s(2)] fill_age_rows(1)[OF s(1)] by (simp add: has_column_def)
  finally show ?thesis .
qed

lemma post_family:
  assumes "clean_data df = Inr (d, lg)" and "has_column df ''SibSp''" and "has_column df ''Parch''"
    and "r \<in> set (rows d)"
  shows "FamilySize r = family_size r"
    and "IsAlone r = Some (if family_size r = Some 1 then 1 else 0)"
proof -
  from assms(1) obtain d3 n3 d4 n4 d7 where
    s: "fill_age (convert_categorical (remove_duplicates df)) = Inr (d3, n3)"
    "fill_embarked d3 = Inr (d4, n4)"
    "title_feature (family_features (fst (drop_cabin d4))) = Inr d7"
    "fare_groups (age_groups d7) = Inr d"
    by (rule clean_data_steps)
  let ?d5 = "fst (drop_cabin d4)"
  have c: "has_column ?d5 ''SibSp''" "has_column ?d5 ''Parch''"
    using assms(2,3) drop_cabin_rows(3)[of _ d4] fill_embarked_rows(1)[OF s(2)] fill_age_rows(1)[OF s(1)]
    by (simp_all add: has_column_def)
  obtain g where g: "rows d = map (\<lambda>r. r\<lparr>FareGroup := g r\<rparr>) (rows (age_groups d7))"
    using fare_groups_rows(1)[OF s(4)] by blast
  obtain g8 where g8: "rows (age_groups d7) = map (\<lambda>r. r\<lparr>AgeGroup := g8 r\<rparr>) (rows d7)"
    using age_groups_rows(3) by blast
  obtain g7 where g7: "rows d7 = map (\<lambda>r. r\<lparr>Title := g7 r\<rparr>) (rows (family_features ?d5))"
    using title_feature_rows(3)[OF s(3)] by blast
  from assms(4) obtain r5 where
    "r = r5\<lparr>FamilySize := family_size r5, IsAlone := Some (if family_size r5 = Some 1 then 1 else 0),
            Title := g7 (r5\<lparr>FamilySize := family_size r5, IsAlone := Some (if family_size r5 = Some 1 then 1 else 0)\<rparr>),
            AgeGroup := g8 (r5\<lparr>FamilySize := family_size r5, IsAlone := Some (if family_size r5 = Some 1 then 1 else 0),
                              Title := g7 (r5\<lparr>FamilySize := family_size r5, IsAlone := Some (if family_size r5 = Some 1 then 1 else 0)\<rparr>)\<rparr>)\<rparr>
          \<lparr>FareGroup := g (r5\<lparr>FamilySize := family_size r5, IsAlone := Some (if family_size r5 = Some 1 then 1 else 0),
            Title := g7 (r5\<lparr>FamilySize := family_size r5, IsAlone := Some (if family_size r5 = Some 1 then 1 else 0)\<rparr>),
            AgeGroup := g8 (r5\<lparr>FamilySize := family_size r5, IsAlone := Some (if family_size r5 = Some 1 then 1 else 0),
                              Title := g7 (r5\<lparr>FamilySize := family_size r5, IsAlone := Some (if family_size r5 = Some 1 then 1 else 0)\<rparr>)\<rparr>)\<rparr>)\<rparr>"
    unfolding g g8 g7 family_features_rows(2)[OF c] by auto
  then have fs: "family_size r = family_size r5" "FamilySize r = family_size r5"
    "IsAlone r = Some (if family_size r5 = Some 1 then 1 else 0)"
    by (simp_all add: family_size_def)
  show "FamilySize r = family_size r" using fs by simp
  show "IsAlone r = Some (if family_size r = Some 1 then 1 else 0)" using fs by simp
qed

lemma post_age_group:
  assumes "clean_data df = Inr (d, lg)" and "has_column df ''Age''" and "r \<in> set (rows d)"
  shows "AgeGroup r = cut age_bins age_labels (Age r)"
proof -
  from assms(1) obtain d3 n3 d4 n4 d7 where
    s: "fill_age (convert_categorical (remove_duplicates df)) = Inr (d3, n3)"
    "fill_embarked d3 = Inr (d4, n4)"
    "title_feature (family_features (fst (drop_cabin d4))) = Inr d7"
    "fare_groups (age_groups d7) = Inr d"
    by (rule clean_data_steps)
  have c: "has_column d7 ''Age''"
    using assms(2) title_feature_rows(2)[OF s(3)] family_features_rows(3) drop_cabin_rows(3)[of _ d4]
      fill_embarked_rows(1)[OF s(2)] fill_age_rows(1)[OF s(1)]
    by (simp add: has_column_def)
  obtain g where g: "rows d = map (\<lambda>r. r\<lparr>FareGroup := g r\<rparr>) (rows (age_groups d7))"
    using fare_groups_rows(1)[OF s(4)] by blast
  from assms(3) g obtain r8 where r8: "r8 \<in> set (rows (age_groups d7))" "r = r8\<lparr>FareGroup := g r8\<rparr>"
    by auto
  from r8(1) obtain r7 where "r8 = r7\<lparr>AgeGroup := cut age_bins age_labels (Age r7)\<rparr>"
    unfolding age_groups_rows(1)[OF c] by auto
  with r8(2) show ?thesis by simp
qed

lemma cut_age_cases:
  "cut age_bins age_labels (Some a) =
     (if 0 < a \<and> a \<le> 12 then Some ''Child''
      else if 12 < a \<and> a \<le> 18 then Some ''Teen''
      else if 18 < a \<and> a \<le> 35 then Some ''Adult''
      else if 35 < a \<and> a \<le> 60 then Some ''Middle-aged''
      else if 60 < a \<and> a \<le> 100 then Some ''Senior''
      else None)"
  by (simp add: cut_def bins_to_cuts_def searchsorted_left_def age_bins_def age_labels_def)

lemma isnull_fields:
  "isnull ''Age'' = (\<lambda>r. Age r = None)"
  "isnull ''Embarked'' = (\<lambda>r. Embarked r = None)"
  "isnull ''Cabin'' = (\<lambda>r. Cabin r = None)"
  "isnull ''Name'' = (\<lambda>r. Name r = None)"
  "isnull ''Fare'' = (\<lambda>r. Fare r = None)"
  by (rule ext, simp add: isnull_def)+

lemma null_count_zero: "null_count c rs = 0 \<longleftrightarrow> (\<forall>r \<in> set rs. \<not> isnull c r)"
  by (simp add: null_count_def filter_empty_conv)

lemma fillna_simps [simp]: "fillna v (Some y) = Some y" "fillna v None = v"
  by (simp_all add: fillna_def)

lemma fill_embarked_fills:
  assumes "fill_embarked d = Inr (d', n)"
  shows "\<exists>e. rows d' = map (\<lambda>r. r\<lparr>Embarked := e (Embarked r)\<rparr>) (rows d)
           \<and> (\<forall>x. x \<noteq> None \<longrightarrow> e x = x)
           \<and> (has_column d ''Embarked'' \<longrightarrow> (\<forall>r \<in> set (rows d). e (Embarked r) \<noteq> None))"
proof (cases "has_column d ''Embarked'' \<and> null_count ''Embarked'' (rows d) > 0")
  case True
  with assms obtain m where m: "mode_first (map Embarked (rows d)) = Inr m"
    and d': "d' = d\<lparr>rows := map (\<lambda>r. r\<lparr>Embarked := fillna (Some m) (Embarked r)\<rparr>) (rows d)\<rparr>"
    by (auto simp: fill_embarked_def Let_def split: sum.splits)
  have "rows d' = map (\<lambda>r. r\<lparr>Embarked := fillna (Some m) (Embarked r)\<rparr>) (rows d)
      \<and> (\<forall>x. x \<noteq> None \<longrightarrow> fillna (Some m) x = x)
      \<and> (has_column d ''Embarked'' \<longrightarrow> (\<forall>r \<in> set (rows d). fillna (Some m) (Embarked r) \<noteq> None))"
    using d' by (auto simp: fillna_def split: option.splits)
  then show ?thesis by (rule_tac x = "fillna (Some m)" in exI)
next
  case False
  with assms have d': "d' = d" by (auto simp: fill_embarked_def Let_def split: if_splits)
  have "has_column d ''Embarked'' \<longrightarrow> (\<forall>r \<in> set (rows d). Embarked r \<noteq> None)"
    using False by (auto simp: null_count_zero isnull_def)
  then have "rows d' = map (\<lambda>r. r\<lparr>Embarked := (\<lambda>x. x) (Embarked r)\<rparr>) (rows d)
      \<and> (\<forall>x. x \<noteq> None \<longrightarrow> (\<lambda>x. x) x = x)
      \<and> (has_column d ''Embarked'' \<longrightarrow> (\<forall>r \<in> set (rows d). (\<lambda>x. x) (Embarked r) \<noteq> None))"
    using d' by simp
  then show ?thesis by (rule_tac x = "\<lambda>x. x" in exI)
qed

lemma derived_steps_rows:
  assumes "title_feature (family_features d5) = Inr d7" and "fare_groups (age_groups d7) = Inr d"
  shows "\<exists>F. rows d = map F (rows d5) \<and>
     (\<forall>r. PassengerId (F r) = PassengerId r \<and> Survived (F r) = Survived r
        \<and> Pclass (F r) = Pclass r \<and> Name (F r) = Name r \<and> Sex (F r) = Sex r
        \<and> Age (F r) = Age r \<and> SibSp (F r) = SibSp r \<and> Parch (F r) = Parch r
        \<and> Ticket (F r) = Ticket r \<and> Fare (F r) = Fare r \<and> Cabin (F r) = Cabin r
        \<and> Embarked (F r) = Embarked r)"
proof -
  obtain g h where 6: "rows (family_features d5) = map (\<lambda>r. r\<lparr>FamilySize := g r, IsAlone := h r\<rparr>) (rows d5)"
    using family_features_rows_gen by blast
  obtain t where 7: "rows d7 = map (\<lambda>r. r\<lparr>Title := t r\<rparr>) (rows (family_features d5))"
    using title_feature_rows(3)[OF assms(1)] by blast
  obtain a where 8: "rows (age_groups d7) = map (\<lambda>r. r\<lparr>AgeGroup := a r\<rparr>) (rows d7)"
    using age_groups_rows(3) by blast
  obtain f where 9: "rows d = map (\<lambda>r. r\<lparr>FareGroup := f r\<rparr>) (rows (age_groups d7))"
    using fare_groups_rows(1)[OF assms(2)] by blast
  let ?F = "(\<lambda>r. r\<lparr>FareGroup := f r\<rparr>) \<circ> (\<lambda>r. r\<lparr>AgeGroup := a r\<rparr>) \<circ> (\<lambda>r. r\<lparr>Title := t r\<rparr>)
            \<circ> (\<lambda>r. r\<lparr>FamilySize := g r, IsAlone := h r\<rparr>)"
  have "rows d = map ?F (rows d5)" unfolding 9 8 7 6 by simp
  then show ?thesis by (intro exI[of _ ?F]) simp
qed

lemma imputation_rows:
  assumes "fill_age d2 = Inr (d3, n3)" and "fill_embarked d3 = Inr (d4, n4)"
  shows "\<exists>e. rows d4 =
            map (\<lambda>r. r\<lparr>Age := (if has_column d2 ''Age''
                                then fillna (age_median (rows d2) r) (Age r) else Age r),
                         Embarked := e (Embarked r)\<rparr>) (rows d2)
           \<and> (\<forall>x. x \<noteq> None \<longrightarrow> e x = x)
           \<and> (has_column d2 ''Embarked'' \<longrightarrow> (\<forall>r \<in> set (rows d2). e (Embarked r) \<noteq> None))"
proof -
  obtain e where e: "rows d4 = map (\<lambda>r. r\<lparr>Embarked := e (Embarked r)\<rparr>) (rows d3)"
    "\<forall>x. x \<noteq> None \<longrightarrow> e x = x"
    "has_column d3 ''Embarked'' \<longrightarrow> (\<forall>r \<in> set (rows d3). e (Embarked r) \<noteq> None)"
    using fill_embarked_fills[OF assms(2)] by blast
  have c: "has_column d3 ''Embarked'' = has_column d2 ''Embarked''"
    using fill_age_rows(1)[OF assms(1)] by (simp add: has_column_def)
  have "rows d4 =
      map (\<lambda>r. r\<lparr>Age := (if has_column d2 ''Age''
                          then fillna (age_median (rows d2) r) (Age r) else Age r),
                   Embarked := e (Embarked r)\<rparr>) (rows d2)"
    unfolding e(1) fill_age_rows(3)[OF assms(1)] by simp
  moreover have "has_column d2 ''Embarked'' \<longrightarrow> (\<forall>r \<in> set (rows d2). e (Embarked r) \<noteq> None)"
    using e(3) c unfolding fill_age_rows(3)[OF assms(1)] by simp
  ultimately show ?thesis using e(2) by (rule_tac x = e in exI) simp
qed

lemma clean_data_rows:
  assumes "clean_data df = Inr (d, lg)"
  shows "\<exists>F. rows d = map F (drop_duplicates (rows df)) \<and>
     (\<forall>r. PassengerId (F r) = PassengerId r \<and> Survived (F r) = Survived r
        \<and> Pclass (F r) = Pclass r \<and> Name (F r) = Name r \<and> Sex (F r) = Sex r
        \<and> SibSp (F r) = SibSp r \<and> Parch (F r) = Parch r
        \<and> Ticket (F r) = Ticket r \<and> Fare (F r) = Fare r
        \<and> Age (F r) = (if has_column df ''Age''
                        then fillna (age_median (drop_duplicates (rows df)) r) (Age r) else Age r)
        \<and> (Embarked r \<noteq> None \<longrightarrow> Embarked (F r) = Embarked r))
     \<and> (has_column df ''Embarked'' \<longrightarrow>
          (\<forall>r \<in> set (drop_duplicates (rows df)). Embarked (F r) \<noteq> None))"
proof -
  let ?rs = "drop_duplicates (rows df)"
  let ?d2 = "convert_categorical (remove_duplicates df)"
  from assms(1) obtain d3 n3 d4 n4 d7 where
    s: "fill_age ?d2 = Inr (d3, n3)"
    "fill_embarked d3 = Inr (d4, n4)"
    "title_feature (family_features (fst (drop_cabin d4))) = Inr d7"
    "fare_groups (age_groups d7) = Inr d"
    by (rule clean_data_steps)
  let ?A = "\<lambda>r. if has_column df ''Age'' then fillna (age_median ?rs r) (Age r) else Age r"
  obtain e where e: "rows d4 = map (\<lambda>r. r\<lparr>Age := ?A r, Embarked := e (Embarked r)\<rparr>) ?rs"
    "\<forall>x. x \<noteq> None \<longrightarrow> e x = x"
    "has_column df ''Embarked'' \<longrightarrow> (\<forall>r \<in> set ?rs. e (Embarked r) \<noteq> None)"
  proof -
    have r2: "rows ?d2 = ?rs" by simp
    have h2: "\<And>c. has_column ?d2 c = has_column df c" by (simp add: has_column_def)
    from imputation_rows[OF s(1,2), unfolded r2 h2] show ?thesis using that by blast
  qed
  obtain c where c: "rows (fst (drop_cabin d4)) = map (\<lambda>r. r\<lparr>Cabin := c r\<rparr>) (rows d4)"
    using drop_cabin_rows(2) by blast
  obtain G where G: "rows d = map G (rows (fst (drop_cabin d4)))"
    "\<And>r. PassengerId (G r) = PassengerId r \<and> Survived (G r) = Survived r
        \<and> Pclass (G r) = Pclass r \<and> Name (G r) = Name r \<and> Sex (G r) = Sex r
        \<and> Age (G r) = Age r \<and> SibSp (G r) = SibSp r \<and> Parch (G r) = Parch r
        \<and> Ticket (G r) = Ticket r \<and> Fare (G r) = Fare r \<and> Cabin (G r) = Cabin r
        \<and> Embarked (G r) = Embarked r"
    using derived_steps_rows[OF s(3,4)] by blast
  let ?F = "G \<circ> (\<lambda>r. r\<lparr>Cabin := c r\<rparr>) \<circ> (\<lambda>r. r\<lparr>Age := ?A r, Embarked := e (Embarked r)\<rparr>)"
  have "rows d = map ?F ?rs" unfolding G(1) c e(1) by simp
  moreover have "\<forall>r. PassengerId (?F r) = PassengerId r \<and> Survived (?F r) = Survived r
        \<and> Pclass (?F r) = Pclass r \<and> Name (?F r) = Name r \<and> Sex (?F r) = Sex r
        \<and> SibSp (?F r) = SibSp r \<and> Parch (?F r) = Parch r
        \<and> Ticket (?F r) = Ticket r \<and> Fare (?F r) = Fare r
        \<and> Age (?F r) = ?A r
        \<and> (Embarked r \<noteq> None \<longrightarrow> Embarked (?F r) = Embarked r)"
    using e(2) by (simp add: G(2))
  moreover have "has_column df ''Embarked'' \<longrightarrow> (\<forall>r \<in> set ?rs. Embarked (?F r) \<noteq> None)"
    using e(3) by (simp add: G(2))
  ultimately show ?thesis by (intro exI[of _ ?F]) blast
qed

lemma sort_empty_iff: "sort xs = [] \<longleftrightarrow> xs = []"
  by (metis length_0_conv length_sort)

lemma median_Nil: "median [] = None"
  by (simp add: median_def)

lemma median_odd:
  "xs \<noteq> [] \<Longrightarrow> odd (length xs) \<Longrightarrow> median xs = Some (sort xs ! (length xs div 2))"
  by (simp add: median_def Let_def sort_empty_iff)

lemma median_even:
  "xs \<noteq> [] \<Longrightarrow> even (length xs) \<Longrightarrow>
     median xs = Some ((sort xs ! (length xs div 2 - 1) + sort xs ! (length xs div 2)) / 2)"
  by (simp add: median_def Let_def sort_empty_iff)

lemma median_None: "median xs = None \<longleftrightarrow> xs = []"
proof (cases "xs = []")
  case True
  then show ?thesis by (simp add: median_Nil)
next
  case False
  then show ?thesis
    by (cases "odd (length xs)") (simp_all add: median_odd median_even)
qed

lemma dropna_empty: "dropna xs = [] \<longleftrightarrow> (\<forall>x \<in> set xs. x = None)"
  by (induction xs rule: dropna.induct) auto

lemma group_ages_empty:
  "group_ages rs c s = [] \<longleftrightarrow> (\<forall>r \<in> set rs. Pclass r = Some c \<and> Sex r = Some s \<longrightarrow> Age r = None)"
  by (auto simp: group_ages_def dropna_empty)

lemma age_median_None:
  "age_median rs r = None \<longleftrightarrow>
     (\<forall>c s. Pclass r = Some c \<and> Sex r = Some s \<longrightarrow>
        (\<forall>r' \<in> set rs. Pclass r' = Some c \<and> Sex r' = Some s \<longrightarrow> Age r' = None))"
  by (auto simp: age_median_def median_None group_ages_empty split: option.splits)

lemma sorted_filter_le:
  assumes "sorted s" and "j \<le> length s" and "\<forall>i<j. s ! i \<le> (m::rat)"
  shows "j \<le> length (filter (\<lambda>x. x \<le> m) s)"
proof -
  have "\<forall>x \<in> set (take j s). x \<le> m"
    using assms(2,3) by (auto simp: in_set_conv_nth)
  then have "filter (\<lambda>x. x \<le> m) (take j s) = take j s" by simp
  moreover have "filter (\<lambda>x. x \<le> m) s
      = filter (\<lambda>x. x \<le> m) (take j s) @ filter (\<lambda>x. x \<le> m) (drop j s)"
    by (metis append_take_drop_id filter_append)
  ultimately show ?thesis using assms(2) by simp
qed

lemma sorted_filter_ge:
  assumes "sorted s" and "j \<le> length s" and "\<forall>i. j \<le> i \<and> i < length s \<longrightarrow> (m::rat) \<le> s ! i"
  shows "length s - j \<le> length (filter (\<lambda>x. m \<le> x) s)"
proof -
  have "\<forall>x \<in> set (drop j s). m \<le> x"
    using assms(2,3) by (auto simp: in_set_conv_nth)
  then have "filter (\<lambda>x. m \<le> x) (drop j s) = drop j s" by simp
  moreover have "filter (\<lambda>x. m \<le> x) s
      = filter (\<lambda>x. m \<le> x) (take j s) @ filter (\<lambda>x. m \<le> x) (drop j s)"
    by (metis append_take_drop_id filter_append)
  ultimately show ?thesis by simp
qed

lemma length_filter_sort: "length (filter P (sort xs)) = length (filter P (xs::rat list))"
  by (simp add: filter_sort)

lemma median_is_median:
  assumes "median xs = Some m"
  shows "is_median xs m"
proof -
  let ?s = "sort xs" and ?n = "length xs"
  have ne: "xs \<noteq> []" using assms median_None[of xs] by auto
  have srt: "sorted ?s" and len: "length ?s = ?n" by simp_all
  have n0: "0 < ?n" using ne by simp
  have "?n \<le> 2 * length (filter (\<lambda>x. x \<le> m) ?s) \<and> ?n \<le> 2 * length (filter (\<lambda>x. m \<le> x) ?s)"
  proof (cases "odd ?n")
    case True
    let ?k = "?n div 2"
    have m: "m = ?s ! ?k" using assms median_odd[OF ne True] by simp
    have k: "?k < ?n" using n0 by simp
    have "\<forall>i<Suc ?k. ?s ! i \<le> m"
      unfolding m using srt k len by (auto intro: sorted_nth_mono)
    then have 1: "Suc ?k \<le> length (filter (\<lambda>x. x \<le> m) ?s)"
      using sorted_filter_le[OF srt, of "Suc ?k" m] k len by simp
    have "\<forall>i. ?k \<le> i \<and> i < length ?s \<longrightarrow> m \<le> ?s ! i"
      unfolding m using srt by (auto intro: sorted_nth_mono)
    then have 2: "length ?s - ?k \<le> length (filter (\<lambda>x. m \<le> x) ?s)"
      using sorted_filter_ge[OF srt, of ?k m] k len by simp
    show ?thesis using 1 2 len by presburger
  next
    case False
    let ?k = "?n div 2"
    have m: "m = (?s ! (?k - 1) + ?s ! ?k) / 2" using assms median_even[OF ne] False by simp
    have k: "0 < ?k" "?k < ?n" "?n = 2 * ?k" using n0 False by presburger+
    have mid: "?s ! (?k - 1) \<le> ?s ! ?k"
      using srt k len by (auto intro: sorted_nth_mono)
    have lo: "?s ! (?k - 1) \<le> m" and hi: "m \<le> ?s ! ?k"
      unfolding m using mid by simp_all
    have "\<forall>i<?k. ?s ! i \<le> m"
    proof (intro allI impI)
      fix i assume "i < ?k"
      then have "?s ! i \<le> ?s ! (?k - 1)" using srt k len by (auto intro: sorted_nth_mono)
      then show "?s ! i \<le> m" using lo by simp
    qed
    then have 1: "?k \<le> length (filter (\<lambda>x. x \<le> m) ?s)"
      using sorted_filter_le[OF srt, of ?k m] k len by simp
    have "\<forall>i. ?k \<le> i \<and> i < length ?s \<longrightarrow> m \<le> ?s ! i"
    proof (intro allI impI)
      fix i assume "?k \<le> i \<and> i < length ?s"
      then have "?s ! ?k \<le> ?s ! i" using srt by (auto intro: sorted_nth_mono)
      then show "m \<le> ?s ! i" using hi by simp
    qed
    then have 2: "length ?s - ?k \<le> length (filter (\<lambda>x. m \<le> x) ?s)"
      using sorted_filter_ge[OF srt, of ?k m] k len by simp
    show ?thesis using 1 2 len k(3) by presburger
  qed
  then show ?thesis by (simp add: is_median_def length_filter_sort)
qed

lemma median_single: "median [a] = Some a"
  by (simp add: median_def)

section \<open>Quantiles and bins\<close>












lemma dropna_mem: "x \<in> set (dropna xs) \<longleftrightarrow> Some x \<in> set xs"
  by (induction xs rule: dropna.induct) auto

lemma post_fare_group:
  assumes "clean_data df = Inr (d, lg)" and "has_column df ''Fare''"
  shows "\<exists>g. qcut (map Fare (rows d)) fare_labels = Inr g \<and> (\<forall>r \<in> set (rows d). FareGroup r = g (Fare r))"
proof -
  from assms(1) obtain d3 n3 d4 n4 d7 where
    s: "fill_age (convert_categorical (remove_duplicates df)) = Inr (d3, n3)"
    "fill_embarked d3 = Inr (d4, n4)"
    "title_feature (family_features (fst (drop_cabin d4))) = Inr d7"
    "fare_groups (age_groups d7) = Inr d"
    by (rule clean_data_steps)
  have "has_column d ''Fare''" using clean_data_has_column[OF assms(1), of "''Fare''"] assms(2) by simp
  then have c: "has_column (age_groups d7) ''Fare''"
    using fare_groups_rows(3)[OF s(4), of "''Fare''"] by simp
  obtain g where g: "qcut (map Fare (rows (age_groups d7))) fare_labels = Inr g"
    "rows d = map (\<lambda>r. r\<lparr>FareGroup := g (Fare r)\<rparr>) (rows (age_groups d7))"
    using fare_groups_rows(2)[OF s(4) c] by blast
  have "map Fare (rows d) = map Fare (rows (age_groups d7))" unfolding g(2) by simp
  then have "qcut (map Fare (rows d)) fare_labels = Inr g" using g(1) by simp
  moreover have "\<forall>r \<in> set (rows d). FareGroup r = g (Fare r)" unfolding g(2) by auto
  ultimately show ?thesis by blast
qed

section \<open>Title extraction\<close>

lemma not_letter_period: "\<not> is_letter CHR ''.''"
  by (simp add: is_letter_def)

lemma title_match_front:
  assumes "title_match (c # cs) [] w post"
  shows "c = CHR '' ''" and "takeWhile is_letter cs = w" and "w \<noteq> []"
    and "take 2 (dropWhile is_letter cs) = ''. ''"
proof -
  from assms have c: "c = CHR '' ''" and cs: "cs = w @ CHR ''.'' # CHR '' '' # post"
    and w: "w \<noteq> []" "\<forall>x \<in> set w. is_letter x"
    by (auto simp: title_match_def list_all_iff)
  show "c = CHR '' ''" by (rule c)
  show "w \<noteq> []" by (rule w(1))
  show "takeWhile is_letter cs = w"
    unfolding cs using w(2) not_letter_period by (simp add: takeWhile_append2)
  show "take 2 (dropWhile is_letter cs) = ''. ''"
    unfolding cs using w(2) not_letter_period by (simp add: dropWhile_append2)
qed

lemma title_match_here:
  assumes "c = CHR '' ''" and "takeWhile is_letter cs \<noteq> []"
    and "take 2 (dropWhile is_letter cs) = ''. ''"
  shows "title_match (c # cs) [] (takeWhile is_letter cs) (drop 2 (dropWhile is_letter cs))"
proof -
  have "dropWhile is_letter cs = take 2 (dropWhile is_letter cs) @ drop 2 (dropWhile is_letter cs)"
    by simp
  then have "dropWhile is_letter cs = ''. '' @ drop 2 (dropWhile is_letter cs)"
    using assms(3) by metis
  then have "cs = takeWhile is_letter cs @ ''. '' @ drop 2 (dropWhile is_letter cs)"
    by (metis takeWhile_dropWhile_id)
  moreover have "list_all is_letter (takeWhile is_letter cs)"
    by (auto simp: list_all_iff dest: set_takeWhileD)
  ultimately show ?thesis using assms(1,2) by (simp add: title_match_def)
qed

lemma title_match_Cons:
  "title_match (c # cs) (c' # pre) w post \<longleftrightarrow> c' = c \<and> title_match cs pre w post"
  by (auto simp: title_match_def)

lemma extract_title_Cons:
  "extract_title (c # cs) =
     (if \<exists>w post. title_match (c # cs) [] w post then Some (takeWhile is_letter cs)
      else extract_title cs)"
proof (cases "\<exists>w post. title_match (c # cs) [] w post")
  case True
  then obtain w post where "title_match (c # cs) [] w post" by blast
  from title_match_front[OF this] True show ?thesis by simp
next
  case False
  then have "\<not> (c = CHR '' '' \<and> takeWhile is_letter cs \<noteq> []
      \<and> take 2 (dropWhile is_letter cs) = ''. '')"
    using title_match_here by blast
  then show ?thesis using False by auto
qed

lemma extract_title_leftmost:
  assumes "extract_title n = Some w"
  shows "\<exists>pre post. title_match n pre w post \<and>
     (\<forall>pre' w' post'. title_match n pre' w' post' \<longrightarrow> length pre \<le> length pre')"
  using assms
proof (induction n)
  case Nil
  then show ?case by simp
next
  case (Cons c cs)
  show ?case
  proof (cases "\<exists>w post. title_match (c # cs) [] w post")
    case True
    then obtain w0 post where m: "title_match (c # cs) [] w0 post" by blast
    have "w = takeWhile is_letter cs" using Cons.prems True by (simp add: extract_title_Cons del: extract_title.simps)
    then have "w = w0" using title_match_front(2)[OF m] by simp
    then have "title_match (c # cs) [] w post" using m by simp
    then show ?thesis by (intro exI[of _ "[]"] exI[of _ post]) simp
  next
    case False
    then have "extract_title cs = Some w" using Cons.prems by (simp add: extract_title_Cons del: extract_title.simps)
    then obtain pre post where p: "title_match cs pre w post"
      "\<forall>pre' w' post'. title_match cs pre' w' post' \<longrightarrow> length pre \<le> length pre'"
      using Cons.IH by blast
    have 1: "title_match (c # cs) (c # pre) w post" using p(1) by (simp add: title_match_Cons)
    have 2: "\<forall>pre' w' post'. title_match (c # cs) pre' w' post' \<longrightarrow> length (c # pre) \<le> length pre'"
    proof (intro allI impI)
      fix pre' w' post' assume m: "title_match (c # cs) pre' w' post'"
      then obtain c' pre1 where pre': "pre' = c' # pre1" using False by (cases pre') auto
      then have "title_match cs pre1 w' post'" using m by (simp add: title_match_Cons)
      then show "length (c # pre) \<le> length pre'" using p(2) pre' by auto
    qed
    show ?thesis using 1 2 by blast
  qed
qed

lemma extract_title_found:
  assumes "title_match n pre w post"
  shows "extract_title n \<noteq> None"
  using assms
proof (induction n arbitrary: pre)
  case Nil
  then show ?case by (simp add: title_match_def)
next
  case (Cons c cs)
  show ?case
  proof (cases "\<exists>w post. title_match (c # cs) [] w post")
    case True
    then show ?thesis by (simp add: extract_title_Cons del: extract_title.simps)
  next
    case False
    then obtain c' pre1 where "pre = c' # pre1" using Cons.prems by (cases pre) auto
    then have "title_match cs pre1 w post" using Cons.prems by (simp add: title_match_Cons)
    then have "extract_title cs \<noteq> None" by (rule Cons.IH)
    then show ?thesis using False by (simp add: extract_title_Cons del: extract_title.simps)
  qed
qed

lemma title_match_unique:
  assumes "title_match n pre w post" and "title_match n pre' w' post'" and "length pre = length pre'"
  shows "w = w'"
proof -
  have "pre @ '' '' @ w @ ''. '' @ post = pre' @ '' '' @ w' @ ''. '' @ post'"
    using assms(1,2) by (simp add: title_match_def)
  then have "'' '' @ w @ ''. '' @ post = '' '' @ w' @ ''. '' @ post'"
    using assms(3) by (simp add: append_eq_append_conv)
  then have e: "title_match ('' '' @ w @ ''. '' @ post) [] w' post'"
    using assms(2) by (simp add: title_match_def)
  have "title_match ('' '' @ w @ ''. '' @ post) [] w post"
    using assms(1) by (simp add: title_match_def)
  then have "takeWhile is_letter (w @ ''. '' @ post) = w"
    using title_match_front(2)[of "CHR '' ''" "w @ ''. '' @ post" w post] by simp
  moreover have "takeWhile is_letter (w @ ''. '' @ post) = w'"
    using title_match_front(2)[of "CHR '' ''" "w @ ''. '' @ post" w' post'] e by simp
  ultimately show ?thesis by simp
qed

lemma extract_title_iff:
  "extract_title n = Some w \<longleftrightarrow>
     (\<exists>pre post. title_match n pre w post \<and>
        (\<forall>pre' w' post'. title_match n pre' w' post' \<longrightarrow> length pre \<le> length pre'))"
proof
  assume "extract_title n = Some w"
  then show "\<exists>pre post. title_match n pre w post \<and>
        (\<forall>pre' w' post'. title_match n pre' w' post' \<longrightarrow> length pre \<le> length pre')"
    by (rule extract_title_leftmost)
next
  assume "\<exists>pre post. title_match n pre w post \<and>
        (\<forall>pre' w' post'. title_match n pre' w' post' \<longrightarrow> length pre \<le> length pre')"
  then obtain pre post where m: "title_match n pre w post"
    "\<forall>pre' w' post'. title_match n pre' w' post' \<longrightarrow> length pre \<le> length pre'" by blast
  from extract_title_found[OF m(1)] obtain w2 where w2: "extract_title n = Some w2" by auto
  from extract_title_leftmost[OF w2] obtain pre2 post2 where m2: "title_match n pre2 w2 post2"
    "\<forall>pre' w' post'. title_match n pre' w' post' \<longrightarrow> length pre2 \<le> length pre'" by blast
  have "length pre = length pre2" using m m2 by (meson le_antisym)
  then have "w = w2" using title_match_unique[OF m(1) m2(1)] by simp
  then show "extract_title n = Some w" using w2 by simp
qed

lemma extract_title_None_iff:
  "extract_title n = None \<longleftrightarrow> (\<forall>pre w post. \<not> title_match n pre w post)"
  using extract_title_found extract_title_leftmost by (metis not_None_eq)

lemma count_list_dropna: "count_list (dropna ts) v = length (filter (\<lambda>t. t = Some v) ts)"
  by (induction ts rule: dropna.induct) auto

lemma set_rare_titles:
  "set (rare_titles ts) = {v \<in> set (dropna ts). count_list (dropna ts) v < 10}"
  by (auto simp: rare_titles_def value_counts_def filter_map o_def)

lemma replace_rare_Some:
  assumes "Some v \<in> set ts"
  shows "replace_rare (rare_titles ts) (Some v) =
     Some (if length (filter (\<lambda>t. t = Some v) ts) < 10 then ''Rare'' else v)"
  using assms by (simp add: replace_rare_def set_rare_titles dropna_mem count_list_dropna)

lemma post_title:
  assumes "clean_data df = Inr (d, lg)" and "has_column df ''Name''" and "r \<in> set (rows d)"
  shows "Title r = replace_rare (rare_titles (extracted_titles (rows d)))
                     (Option.bind (Name r) extract_title)"
proof -
  from assms(1) obtain d3 n3 d4 n4 d7 where
    s: "fill_age (convert_categorical (remove_duplicates df)) = Inr (d3, n3)"
    "fill_embarked d3 = Inr (d4, n4)"
    "title_feature (family_features (fst (drop_cabin d4))) = Inr d7"
    "fare_groups (age_groups d7) = Inr d"
    by (rule clean_data_steps)
  let ?d6 = "family_features (fst (drop_cabin d4))"
  have "has_column d ''Name''"
    using clean_data_has_column[OF assms(1), of "''Name''"] assms(2) by simp
  then have c: "has_column ?d6 ''Name''"
    using fare_groups_rows(3)[OF s(4), of "''Name''"] age_groups_rows(2)[of "''Name''" d7]
      title_feature_rows(2)[OF s(3), of "''Name''"] by simp
  let ?t = "\<lambda>r. replace_rare (rare_titles (extracted_titles (rows ?d6)))
                     (Option.bind (Name r) extract_title)"
  have 7: "rows d7 = map (\<lambda>r. r\<lparr>Title := ?t r\<rparr>) (rows ?d6)"
    by (rule title_feature_rows(1)[OF s(3) c])
  obtain a where 8: "rows (age_groups d7) = map (\<lambda>r. r\<lparr>AgeGroup := a r\<rparr>) (rows d7)"
    using age_groups_rows(3) by blast
  obtain f where 9: "rows d = map (\<lambda>r. r\<lparr>FareGroup := f r\<rparr>) (rows (age_groups d7))"
    using fare_groups_rows(1)[OF s(4)] by blast
  have names: "extracted_titles (rows d) = extracted_titles (rows ?d6)"
    unfolding 9 8 7 by (simp add: extracted_titles_def)
  from assms(3) obtain r6 where "r6 \<in> set (rows ?d6)"
    "Title r = ?t r6" "Name r = Name r6"
    unfolding 9 8 7 by auto
  then show ?thesis using names by simp
qed

section \<open>Categories\<close>




lemma map_of_set_dtype:
  "map_of (set_dtype c v kvs) c' = (if c' = c then Some v else map_of kvs c')"
  by (induction c v kvs rule: set_dtype.induct) auto




lemma astype_category_dtype:
  "map_of (categorical (astype_category c d)) c' =
     (if c' = c \<and> map_of (categorical d) c = None
      then Some (categories_of (map (cell c) (rows d))) else map_of (categorical d) c')"
  by (auto simp: astype_category_def map_of_set_dtype split: option.splits)


lemma title_feature_dtype:
  assumes "title_feature d = Inr d'"
  shows "categorical d' =
     (if has_column d ''Name''
      then set_dtype ''Title'' (categories_of (map (cell ''Title'') (rows d'))) (categorical d)
      else categorical d)"
  using assms by (auto simp: title_feature_def Let_def split: if_splits)

lemma age_groups_dtype:
  "categorical (age_groups d) =
     (if has_column d ''Age'' then set_dtype ''AgeGroup'' (map StrCat age_labels) (categorical d)
      else categorical d)"
  by (simp add: age_groups_def)

lemma fare_groups_dtype:
  assumes "fare_groups d = Inr d'"
  shows "categorical d' =
     (if has_column d ''Fare'' then set_dtype ''FareGroup'' (map StrCat fare_labels) (categorical d)
      else categorical d)"
  using assms by (auto simp: fare_groups_def split: if_splits sum.splits)

lemma cell_Title_derived:
  assumes "fare_groups (age_groups d7) = Inr d"
  shows "map (cell ''Title'') (rows d) = map (cell ''Title'') (rows d7)"
proof -
  obtain a where 8: "rows (age_groups d7) = map (\<lambda>r. r\<lparr>AgeGroup := a r\<rparr>) (rows d7)"
    using age_groups_rows(3) by blast
  obtain f where 9: "rows d = map (\<lambda>r. r\<lparr>FareGroup := f r\<rparr>) (rows (age_groups d7))"
    using fare_groups_rows(1)[OF assms] by blast
  show ?thesis unfolding 9 8 by (simp add: cell_def)
qed

lemma clean_data_categorical:
  assumes "clean_data df = Inr (d, lg)"
  shows "map_of (categorical d) c =
     (if c = ''FareGroup'' \<and> has_column df ''Fare'' then Some (map StrCat fare_labels)
      else if c = ''AgeGroup'' \<and> has_column df ''Age'' then Some (map StrCat age_labels)
      else if c = ''Title'' \<and> has_column df ''Name''
        then Some (categories_of (map (cell ''Title'') (rows d)))
      else map_of (categorical (convert_categorical (remove_duplicates df))) c)"
proof -
  let ?d2 = "convert_categorical (remove_duplicates df)"
  from assms(1) obtain d3 n3 d4 n4 d7 where
    s: "fill_age ?d2 = Inr (d3, n3)"
    "fill_embarked d3 = Inr (d4, n4)"
    "title_feature (family_features (fst (drop_cabin d4))) = Inr d7"
    "fare_groups (age_groups d7) = Inr d"
    by (rule clean_data_steps)
  let ?d6 = "family_features (fst (drop_cabin d4))"
  have c6: "categorical ?d6 = categorical ?d2"
    using family_features_rows(1) drop_cabin_rows(1) fill_embarked_rows(2)[OF s(2)]
      fill_age_rows(2)[OF s(1)] by simp
  have h4: "\<And>c. has_column d4 c = has_column df c"
    using fill_embarked_rows(1)[OF s(2)] fill_age_rows(1)[OF s(1)] by (simp add: has_column_def)
  have hN: "has_column ?d6 ''Name'' = has_column df ''Name''"
    using family_features_rows(3)[of "''Name''"] drop_cabin_rows(3)[of "''Name''" d4] h4 by simp
  have hA: "has_column d7 ''Age'' = has_column df ''Age''"
    using title_feature_rows(2)[OF s(3), of "''Age''"] family_features_rows(3)[of "''Age''"]
      drop_cabin_rows(3)[of "''Age''" d4] h4 by simp
  have hF: "has_column (age_groups d7) ''Fare'' = has_column df ''Fare''"
    using age_groups_rows(2)[of "''Fare''" d7]
      title_feature_rows(2)[OF s(3), of "''Fare''"] family_features_rows(3)[of "''Fare''"]
      drop_cabin_rows(3)[of "''Fare''" d4] h4 by simp
  show ?thesis
    unfolding fare_groups_dtype[OF s(4)] age_groups_dtype title_feature_dtype[OF s(3)]
      hN hA hF c6 cell_Title_derived[OF s(4)]
    by (simp add: map_of_set_dtype)
qed



section \<open>Survival tables\<close>






section \<open>Cleaning a cleaned frame\<close>

lemma drop_dups_distinct:
  "distinct xs \<Longrightarrow> set xs \<inter> set seen = {} \<Longrightarrow> drop_dups seen xs = xs"
  by (induction xs arbitrary: seen) auto

lemma drop_duplicates_distinct: "distinct xs \<Longrightarrow> drop_duplicates xs = xs"
  by (simp add: drop_duplicates_def drop_dups_distinct)

lemma set_dtype_same: "map_of kvs c = Some v \<Longrightarrow> set_dtype c v kvs = kvs"
  by (induction c v kvs rule: set_dtype.induct) (auto split: if_splits)

lemma total_nulls_zero:
  "total_nulls d = 0 \<longleftrightarrow> (\<forall>c \<in> set (columns d). null_count c (rows d) = 0)"
  by (auto simp: total_nulls_def)

lemma no_nulls_field:
  assumes "total_nulls d = 0" and "has_column d c" and "r \<in> set (rows d)"
  shows "\<not> isnull c r"
  using assms by (auto simp: total_nulls_zero has_column_def null_count_zero)

lemma convert_categorical_set:
  assumes "c \<in> set categorical_cols" and "has_column d c"
  shows "map_of (categorical (convert_categorical d)) c \<noteq> None"
  using assms
  by (auto simp: convert_categorical_def categorical_cols_def astype_category_dtype)

lemma astype_category_same:
  "map_of (categorical d) c \<noteq> None \<Longrightarrow> astype_category c d = d"
  by (auto simp: astype_category_def)

lemma add_column_same: "c \<in> set cs \<Longrightarrow> add_column c cs = cs"
  by (simp add: add_column_def)

lemma clean_data_derived_columns:
  assumes "clean_data df = Inr (d, lg)"
  shows "has_column d ''SibSp'' \<Longrightarrow> has_column d ''Parch'' \<Longrightarrow>
           has_column d ''FamilySize'' \<and> has_column d ''IsAlone''"
    and "has_column d ''Name'' \<Longrightarrow> has_column d ''Title''"
    and "has_column d ''Age'' \<Longrightarrow> has_column d ''AgeGroup''"
    and "has_column d ''Fare'' \<Longrightarrow> has_column d ''FareGroup''"
    and "has_column d ''Age'' \<Longrightarrow> has_column d ''Pclass'' \<and> has_column d ''Sex''"
proof -
  let ?d2 = "convert_categorical (remove_duplicates df)"
  from assms(1) obtain d3 n3 d4 n4 d7 where
    s: "fill_age ?d2 = Inr (d3, n3)"
    "fill_embarked d3 = Inr (d4, n4)"
    "title_feature (family_features (fst (drop_cabin d4))) = Inr d7"
    "fare_groups (age_groups d7) = Inr d"
    by (rule clean_data_steps)
  let ?d5 = "fst (drop_cabin d4)"
  let ?d6 = "family_features ?d5"
  have h: "\<And>c. c \<noteq> ''Cabin'' \<Longrightarrow> c \<noteq> ''FamilySize'' \<Longrightarrow> c \<noteq> ''IsAlone'' \<Longrightarrow> c \<noteq> ''Title''
      \<Longrightarrow> c \<noteq> ''AgeGroup'' \<Longrightarrow> c \<noteq> ''FareGroup'' \<Longrightarrow> has_column d c = has_column df c"
    by (rule clean_data_has_column[OF assms(1)])
  have h5: "\<And>c. c \<noteq> ''Cabin'' \<Longrightarrow> has_column ?d5 c = has_column df c"
    using drop_cabin_rows(3)[of _ d4] fill_embarked_rows(1)[OF s(2)] fill_age_rows(1)[OF s(1)]
    by (simp add: has_column_def)
  have up6: "\<And>c. has_column ?d6 c \<Longrightarrow> has_column d c"
    using s(3,4) by (auto simp: title_feature_def age_groups_def fare_groups_def Let_def
        has_column_def add_column_def split: if_splits sum.splits)
  have up7: "\<And>c. has_column d7 c \<Longrightarrow> has_column d c"
    using s(4) by (auto simp: age_groups_def fare_groups_def Let_def
        has_column_def add_column_def split: if_splits sum.splits)
  have up8: "\<And>c. has_column (age_groups d7) c \<Longrightarrow> has_column d c"
    using s(4) by (auto simp: fare_groups_def Let_def
        has_column_def add_column_def split: if_splits sum.splits)
  show "has_column d ''SibSp'' \<Longrightarrow> has_column d ''Parch'' \<Longrightarrow>
           has_column d ''FamilySize'' \<and> has_column d ''IsAlone''"
  proof -
    assume "has_column d ''SibSp''" "has_column d ''Parch''"
    then have "has_column ?d5 ''SibSp''" "has_column ?d5 ''Parch''" using h h5 by simp_all
    then have "has_column ?d6 ''FamilySize'' \<and> has_column ?d6 ''IsAlone''"
      by (simp add: family_features_def has_column_def add_column_def)
    then show ?thesis using up6 by blast
  qed
  show "has_column d ''Name'' \<Longrightarrow> has_column d ''Title''"
  proof -
    assume "has_column d ''Name''"
    then have "has_column ?d6 ''Name''"
      using h[of "''Name''"] h5[of "''Name''"] family_features_rows(3)[of "''Name''" ?d5] by simp
    then have "has_column d7 ''Title''"
      using s(3) by (auto simp: title_feature_def Let_def has_column_def add_column_def split: if_splits)
    then show ?thesis using up7 by blast
  qed
  show "has_column d ''Age'' \<Longrightarrow> has_column d ''AgeGroup''"
  proof -
    assume "has_column d ''Age''"
    then have "has_column d7 ''Age''"
      using h[of "''Age''"] h5[of "''Age''"] family_features_rows(3)[of "''Age''" ?d5]
        title_feature_rows(2)[OF s(3), of "''Age''"] by simp
    then have "has_column (age_groups d7) ''AgeGroup''"
      by (simp add: age_groups_def has_column_def add_column_def)
    then show ?thesis using up8 by blast
  qed
  show "has_column d ''Fare'' \<Longrightarrow> has_column d ''FareGroup''"
  proof -
    assume "has_column d ''Fare''"
    then have "has_column (age_groups d7) ''Fare''"
      using fare_groups_rows(3)[OF s(4), of "''Fare''"] by simp
    then show ?thesis
      using s(4) by (auto simp: fare_groups_def has_column_def add_column_def split: sum.splits)
  qed
  show "has_column d ''Age'' \<Longrightarrow> has_column d ''Pclass'' \<and> has_column d ''Sex''"
  proof -
    assume "has_column d ''Age''"
    then have "has_column ?d2 ''Age''" using h[of "''Age''"] by (simp add: has_column_def)
    then have "has_column ?d2 ''Pclass'' \<and> has_column ?d2 ''Sex''"
      using s(1) by (auto simp: fill_age_def split: if_splits)
    then show ?thesis using h[of "''Pclass''"] h[of "''Sex''"] by (simp add: has_column_def)
  qed
qed

lemma rerun_steps:
  assumes "clean_data df = Inr (d, lg)" and "total_nulls d = 0" and "distinct (rows d)"
  shows "remove_duplicates d = d"
    and "convert_categorical d = d"
    and "fill_age d = Inr (d, if has_column d ''Age'' then Some 0 else None)"
    and "fill_embarked d = Inr (d, if has_column d ''Embarked'' then Some 0 else None)"
    and "drop_cabin d = (d, False)"
    and "family_features d = d"
    and "title_feature d = Inr d"
    and "age_groups d = d"
    and "fare_groups d = Inr d"
proof -
  note nn = no_nulls_field[OF assms(2)]
  note dc = clean_data_derived_columns[OF assms(1)]
  have hc: "\<And>c. c \<noteq> ''Cabin'' \<Longrightarrow> c \<noteq> ''FamilySize'' \<Longrightarrow> c \<noteq> ''IsAlone'' \<Longrightarrow> c \<noteq> ''Title''
      \<Longrightarrow> c \<noteq> ''AgeGroup'' \<Longrightarrow> c \<noteq> ''FareGroup'' \<Longrightarrow> has_column d c = has_column df c"
    by (rule clean_data_has_column[OF assms(1)])
  show 1: "remove_duplicates d = d"
    by (simp add: remove_duplicates_def drop_duplicates_distinct[OF assms(3)])
  have cat: "\<And>c. c \<in> set categorical_cols \<Longrightarrow> has_column d c \<Longrightarrow> map_of (categorical d) c \<noteq> None"
  proof -
    fix c assume c: "c \<in> set categorical_cols" and h: "has_column d c"
    then have "has_column (remove_duplicates df) c"
      using hc[of c] by (auto simp: categorical_cols_def has_column_def)
    then have "map_of (categorical (convert_categorical (remove_duplicates df))) c \<noteq> None"
      by (rule convert_categorical_set[OF c])
    then show "map_of (categorical d) c \<noteq> None"
      using clean_data_categorical[OF assms(1), of c] c
      by (auto simp: categorical_cols_def split: if_splits)
  qed
  show 2: "convert_categorical d = d"
    using cat by (simp add: convert_categorical_def categorical_cols_def astype_category_same)
  show 3: "fill_age d = Inr (d, if has_column d ''Age'' then Some 0 else None)"
  proof (cases "has_column d ''Age''")
    case True
    have a: "\<forall>r \<in> set (rows d). Age r \<noteq> None"
      using nn[OF True] by (simp add: isnull_fields)
    then have "map (\<lambda>r. r\<lparr>Age := fillna (age_median (rows d) r) (Age r)\<rparr>) (rows d) = rows d"
      by (intro map_idI) auto
    moreover have "null_count ''Age'' (rows d) = 0"
      using a by (simp add: null_count_zero isnull_fields)
    ultimately show ?thesis using True dc(5) by (simp add: fill_age_def)
  next
    case False
    then show ?thesis by (simp add: fill_age_def)
  qed
  show 4: "fill_embarked d = Inr (d, if has_column d ''Embarked'' then Some 0 else None)"
  proof (cases "has_column d ''Embarked''")
    case True
    have "null_count ''Embarked'' (rows d) = 0"
      using nn[OF True] by (simp add: null_count_zero)
    then show ?thesis using True by (simp add: fill_embarked_def)
  next
    case False
    then show ?thesis by (simp add: fill_embarked_def)
  qed
  show 5: "drop_cabin d = (d, False)"
  proof (cases "has_column d ''Cabin''")
    case True
    have "null_count ''Cabin'' (rows d) = 0"
      using nn[OF True] by (simp add: null_count_zero)
    then show ?thesis by (simp add: drop_cabin_def cabin_null_pct_def)
  next
    case False
    then show ?thesis by (simp add: drop_cabin_def)
  qed
  show 6: "family_features d = d"
  proof (cases "has_column d ''SibSp'' \<and> has_column d ''Parch''")
    case True
    then have c: "has_column df ''SibSp''" "has_column df ''Parch''" using hc by simp_all
    have "\<forall>r \<in> set (rows d). r\<lparr>FamilySize := family_size r,
        IsAlone := Some (if family_size r = Some 1 then 1 else 0)\<rparr> = r"
    proof
      fix r assume r: "r \<in> set (rows d)"
      have "family_size r = FamilySize r"
        and "Some (if family_size r = Some 1 then 1 else 0) = IsAlone r"
        using post_family[OF assms(1) c r] by simp_all
      then show "r\<lparr>FamilySize := family_size r,
        IsAlone := Some (if family_size r = Some 1 then 1 else 0)\<rparr> = r"
        by (simp only: passenger.update_convs) simp
    qed
    then have "map (\<lambda>r. r\<lparr>FamilySize := family_size r,
        IsAlone := Some (if family_size r = Some 1 then 1 else 0)\<rparr>) (rows d) = rows d"
      by (intro map_idI) auto
    moreover have "add_column ''IsAlone'' (add_column ''FamilySize'' (columns d)) = columns d"
      using dc(1) True by (simp add: add_column_same has_column_def)
    ultimately show ?thesis using True by (simp add: family_features_def)
  next
    case False
    then show ?thesis by (auto simp: family_features_def)
  qed
  show 7: "title_feature d = Inr d"
  proof (cases "has_column d ''Name''")
    case True
    then have c: "has_column df ''Name''" using hc by simp
    have nm: "\<forall>r \<in> set (rows d). Name r \<noteq> None"
      using nn[OF True] by (simp add: isnull_fields)
    then have ok: "\<not> (rows d \<noteq> [] \<and> (\<forall>r \<in> set (rows d). Name r = None))"
      by (cases "rows d") auto
    let ?t = "\<lambda>r. replace_rare (rare_titles (extracted_titles (rows d)))
                      (Option.bind (Name r) extract_title)"
    have "\<forall>r \<in> set (rows d). r\<lparr>Title := ?t r\<rparr> = r"
    proof
      fix r assume r: "r \<in> set (rows d)"
      have "?t r = Title r" using post_title[OF assms(1) c r] by simp
      then show "r\<lparr>Title := ?t r\<rparr> = r" by (simp only: passenger.update_convs) simp
    qed
    then have rs: "map (\<lambda>r. r\<lparr>Title := ?t r\<rparr>) (rows d) = rows d"
      by (intro map_idI) auto
    have "map_of (categorical d) ''Title'' = Some (categories_of (map (cell ''Title'') (rows d)))"
      using clean_data_categorical[OF assms(1), of "''Title''"] c by simp
    then have ct: "set_dtype ''Title'' (categories_of (map (cell ''Title'') (rows d))) (categorical d)
        = categorical d"
      by (rule set_dtype_same)
    have cl: "add_column ''Title'' (columns d) = columns d"
      using dc(2)[OF True] by (simp add: add_column_same has_column_def)
    have "title_feature d =
        Inr (d\<lparr>columns := add_column ''Title'' (columns d),
               rows := map (\<lambda>r. r\<lparr>Title := ?t r\<rparr>) (rows d),
               categorical := set_dtype ''Title''
                 (categories_of (map (cell ''Title'') (map (\<lambda>r. r\<lparr>Title := ?t r\<rparr>) (rows d))))
                 (categorical d)\<rparr>)"
      using True ok by (simp add: title_feature_def Let_def del: map_map)
    then show ?thesis unfolding rs ct cl by simp
  next
    case False
    then show ?thesis by (simp add: title_feature_def)
  qed
  show 8: "age_groups d = d"
  proof (cases "has_column d ''Age''")
    case True
    then have c: "has_column df ''Age''" using hc by simp
    have "\<forall>r \<in> set (rows d). r\<lparr>AgeGroup := cut age_bins age_labels (Age r)\<rparr> = r"
    proof
      fix r assume r: "r \<in> set (rows d)"
      have "cut age_bins age_labels (Age r) = AgeGroup r"
        using post_age_group[OF assms(1) c r] by simp
      then show "r\<lparr>AgeGroup := cut age_bins age_labels (Age r)\<rparr> = r"
        by (simp only: passenger.update_convs) simp
    qed
    then have rs: "map (\<lambda>r. r\<lparr>AgeGroup := cut age_bins age_labels (Age r)\<rparr>) (rows d) = rows d"
      by (intro map_idI) auto
    have "map_of (categorical d) ''AgeGroup'' = Some (map StrCat age_labels)"
      using clean_data_categorical[OF assms(1), of "''AgeGroup''"] c by simp
    then have ct: "set_dtype ''AgeGroup'' (map StrCat age_labels) (categorical d) = categorical d"
      by (rule set_dtype_same)
    have cl: "add_column ''AgeGroup'' (columns d) = columns d"
      using dc(3)[OF True] by (simp add: add_column_same has_column_def)
    show ?thesis using True by (simp add: age_groups_def rs ct cl)
  next
    case False
    then show ?thesis by (simp add: age_groups_def)
  qed
  show 9: "fare_groups d = Inr d"
  proof (cases "has_column d ''Fare''")
    case True
    then have c: "has_column df ''Fare''" using hc by simp
    obtain g where g: "qcut (map Fare (rows d)) fare_labels = Inr g"
      "\<forall>r \<in> set (rows d). FareGroup r = g (Fare r)"
      using post_fare_group[OF assms(1) c] by blast
    have "\<forall>r \<in> set (rows d). r\<lparr>FareGroup := g (Fare r)\<rparr> = r"
    proof
      fix r assume r: "r \<in> set (rows d)"
      have "g (Fare r) = FareGroup r" using g(2) r by simp
      then show "r\<lparr>FareGroup := g (Fare r)\<rparr> = r" by (simp only: passenger.update_convs) simp
    qed
    then have rs: "map (\<lambda>r. r\<lparr>FareGroup := g (Fare r)\<rparr>) (rows d) = rows d"
      by (intro map_idI) auto
    have "map_of (categorical d) ''FareGroup'' = Some (map StrCat fare_labels)"
      using clean_data_categorical[OF assms(1), of "''FareGroup''"] c by simp
    then have ct: "set_dtype ''FareGroup'' (map StrCat fare_labels) (categorical d) = categorical d"
      by (rule set_dtype_same)
    have cl: "add_column ''FareGroup'' (columns d) = columns d"
      using dc(4)[OF True] by (simp add: add_column_same has_column_def)
    show ?thesis using True by (simp add: fare_groups_def g(1) rs ct cl)
  next
    case False
    then show ?thesis by (simp add: fare_groups_def)
  qed
qed

text \<open>The cleaner on the sample frame, evaluated.\<close>

lemma sample_clean: "clean_data sample = Inr (sample_cleaned, sample_log)"
  by code_simp

text \<open>The cleaner on the other sample frames, evaluated.\<close>

lemma two_groups_clean: "clean_data two_groups = Inr (two_groups_cleaned, two_groups_log)"
  by code_simp

lemma cabin_frame_71: "clean_data (cabin_frame 71) = Inr (cabin_frame_dropped, cabin_log True 0)"
  by code_simp

lemma cabin_frame_69: "clean_data (cabin_frame 69) = Inr (cabin_frame 69, cabin_log False 69)"
  by code_simp

lemma titles_clean: "clean_data titles_frame = Inr (titles_cleaned, titles_log)"
  by code_simp


text \<open>The cleaner on the frame with the twin records, run twice.\<close>

lemma twins_clean: "clean_data twins = Inr (twins_cleaned, rerun_log 0 1)"
  by code_simp

lemma twins_clean_again: "clean_data twins_cleaned = Inr (twins_recleaned, rerun_log 1 0)"
  by code_simp

text \<open>The mode of the ports S, S, C and a missing one is S; of two equally frequent ports, the first in order.\<close>

lemma mode_first_sample:
  "mode_first [Some ''S'', Some ''S'', Some ''C'', None] = Inr ''S''"
  "mode_first [Some ''S'', Some ''C'', None] = Inr ''C''"
  "mode_first [None, None] = Inl KeyError"
  by code_simp+

section \<open>Family size and travelling alone\<close>



section \<open>Age groups\<close>

text \<open>
  C4 as stated has the first bucket closed at 0: a record of age exactly 0 would be a
  \<open>Child\<close>.  The sample frame has such a record, and its age group is missing.
\<close>

theorem age_zero_not_child:
  "clean_data sample = Inr (sample_cleaned, sample_log)
   \<and> Age (rows sample ! 2) = Some 0
   \<and> Age (rows sample_cleaned ! 2) = Some 0
   \<and> AgeGroup (rows sample_cleaned ! 2) = None"
  using sample_clean by (simp add: sample_def sample_cleaned_def cleaned_row_def raw_row_def)

text \<open>
  C4, amended.  In every record of the cleaned set the age group is the bucket of the
  (imputed) age under Child (0, 12], Teen (12, 18], Adult (18, 35], Middle-aged (35, 60],
  Senior (60, 100], each bucket open on the left; an age in no bucket, so an age of 0 or
  below or above 100, and a missing age have no age group.
\<close>

theorem age_group_buckets:
  assumes "clean_data df = Inr (d, lg)" and "has_column df ''Age''" and "r \<in> set (rows d)"
  shows "AgeGroup r =
     (case Age r of
        None \<Rightarrow> None
      | Some a \<Rightarrow>
          if 0 < a \<and> a \<le> 12 then Some ''Child''
          else if 12 < a \<and> a \<le> 18 then Some ''Teen''
          else if 18 < a \<and> a \<le> 35 then Some ''Adult''
          else if 35 < a \<and> a \<le> 60 then Some ''Middle-aged''
          else if 60 < a \<and> a \<le> 100 then Some ''Senior''
          else None)"
proof (cases "Age r")
  case None
  then show ?thesis using post_age_group[OF assms] by (simp add: cut_def)
next
  case (Some a)
  then show ?thesis using post_age_group[OF assms] by (simp add: cut_age_cases)
qed

theorem age_group_buckets_witness:
  "clean_data sample = Inr (sample_cleaned, sample_log) \<and> has_column sample ''Age''
   \<and> rows sample_cleaned ! 3 \<in> set (rows sample_cleaned)
   \<and> Age (rows sample_cleaned ! 3) = Some 22
   \<and> AgeGroup (rows sample_cleaned ! 3) = Some ''Adult''"
proof -
  have c: "has_column sample ''Age''"
    by (simp add: has_column_def sample_def raw_columns_def)
  have m: "rows sample_cleaned ! 3 \<in> set (rows sample_cleaned)"
    by (simp add: sample_cleaned_def)
  have v: "Age (rows sample_cleaned ! 3) = Some 22"
    by (simp add: sample_cleaned_def cleaned_row_def raw_row_def)
  show ?thesis
    using age_group_buckets[OF sample_clean c m] sample_clean c m v by simp
qed

section \<open>The cabin column\<close>

text \<open>
  C6. When the cleaner returns on a frame with a cabin column, the cleaned frame has no
  cabin column exactly when the fraction of missing cabins among the records is above 70
  percent; so at 71 percent the column is gone, and at 69 percent it is there with every
  value as it was.  The records are those left after the first step has removed duplicates:
  all of them when no two records of the frame are equal.
\<close>

theorem cabin_drop_threshold:
  assumes "clean_data df = Inr (d, lg)" and "has_column df ''Cabin''"
  shows "(\<not> has_column d ''Cabin'' \<longleftrightarrow>
            rat_of_nat (length (filter (\<lambda>r. Cabin r = None) (drop_duplicates (rows df))))
              / rat_of_nat (length (drop_duplicates (rows df))) > 70 / 100)
       \<and> (cabin_dropped lg \<longleftrightarrow> \<not> has_column d ''Cabin'')
       \<and> (has_column d ''Cabin'' \<longrightarrow> map Cabin (rows d) = map Cabin (drop_duplicates (rows df)))
       \<and> (drop_duplicates (rows df) \<noteq> [] \<and>
            100 * length (filter (\<lambda>r. Cabin r = None) (drop_duplicates (rows df)))
              = 71 * length (drop_duplicates (rows df)) \<longrightarrow> \<not> has_column d ''Cabin'')
       \<and> (100 * length (filter (\<lambda>r. Cabin r = None) (drop_duplicates (rows df)))
              = 69 * length (drop_duplicates (rows df)) \<longrightarrow>
            has_column d ''Cabin'' \<and> map Cabin (rows d) = map Cabin (drop_duplicates (rows df)))
       \<and> (distinct (rows df) \<longrightarrow> drop_duplicates (rows df) = rows df)"
proof -
  let ?rs = "drop_duplicates (rows df)"
  let ?n = "length (filter (\<lambda>r. Cabin r = None) ?rs)"
  from assms(1) obtain d3 n3 d4 n4 d7 where
    s: "fill_age (convert_categorical (remove_duplicates df)) = Inr (d3, n3)"
    "fill_embarked d3 = Inr (d4, n4)"
    "title_feature (family_features (fst (drop_cabin d4))) = Inr d7"
    "fare_groups (age_groups d7) = Inr d"
    and lg: "lg = \<lparr>duplicates_removed = length (rows df) - length (rows (remove_duplicates df)),
           age_nulls = n3, embarked_nulls = n4, cabin_dropped = snd (drop_cabin d4),
           remaining_nulls = total_nulls d\<rparr>"
    by (rule clean_data_steps)
  let ?d5 = "fst (drop_cabin d4)"
  obtain e where r4: "rows d4 =
      map (\<lambda>r. r\<lparr>Age := (if has_column (convert_categorical (remove_duplicates df)) ''Age''
                          then fillna (age_median (rows (convert_categorical (remove_duplicates df))) r) (Age r)
                          else Age r),
                   Embarked := e (Embarked r)\<rparr>) ?rs"
    using imputation_rows[OF s(1,2)] by auto
  have cab4: "map Cabin (rows d4) = map Cabin ?rs" unfolding r4 by simp
  have len4: "length (rows d4) = length ?rs" unfolding r4 by simp
  have nulls: "null_count ''Cabin'' (rows d4) = ?n"
  proof -
    have "null_count ''Cabin'' (rows d4) = length (filter (\<lambda>c. c = None) (map Cabin (rows d4)))"
      by (simp add: null_count_def isnull_fields filter_map o_def)
    also have "\<dots> = ?n" unfolding cab4 by (simp add: filter_map o_def)
    finally show ?thesis .
  qed
  have pct: "cabin_null_pct (rows d4) > 70 \<longleftrightarrow> rat_of_nat ?n / rat_of_nat (length ?rs) > 70 / 100"
  proof -
    have ar: "\<And>a::rat. (70 < a * 100) = (70 / 100 < a)" by auto
    show ?thesis unfolding cabin_null_pct_def nulls len4 by (rule ar)
  qed
  have c4: "has_column d4 ''Cabin''"
    using assms(2) fill_embarked_rows(1)[OF s(2)] fill_age_rows(1)[OF s(1)]
    by (simp add: has_column_def)
  have cd: "has_column d ''Cabin'' = has_column ?d5 ''Cabin''"
    using fare_groups_rows(3)[OF s(4)] age_groups_rows(2) title_feature_rows(2)[OF s(3)]
      family_features_rows(3) by simp
  obtain F where F: "rows d = map F (rows ?d5)" "\<And>r. Cabin (F r) = Cabin r"
    using derived_steps_rows[OF s(3,4)] by blast
  have cabd: "map Cabin (rows d) = map Cabin (rows ?d5)" unfolding F(1) by (simp add: F(2))
  have drop: "\<not> has_column ?d5 ''Cabin'' \<longleftrightarrow> cabin_null_pct (rows d4) > 70"
    using c4 by (simp add: drop_cabin_def has_column_def)
  have keep: "\<not> cabin_null_pct (rows d4) > 70 \<Longrightarrow> ?d5 = d4"
    by (simp add: drop_cabin_def)
  have flag: "snd (drop_cabin d4) \<longleftrightarrow> cabin_null_pct (rows d4) > 70"
    using c4 by (simp add: drop_cabin_def)
  have 1: "\<not> has_column d ''Cabin'' \<longleftrightarrow> rat_of_nat ?n / rat_of_nat (length ?rs) > 70 / 100"
    using cd drop pct by simp
  have 2: "cabin_dropped lg \<longleftrightarrow> \<not> has_column d ''Cabin''"
    using lg flag cd drop by simp
  have 3: "has_column d ''Cabin'' \<longrightarrow> map Cabin (rows d) = map Cabin ?rs"
    using cd drop keep cabd cab4 by auto
  have 4: "?rs \<noteq> [] \<and> 100 * ?n = 71 * length ?rs \<longrightarrow> \<not> has_column d ''Cabin''"
  proof
    assume h: "?rs \<noteq> [] \<and> 100 * ?n = 71 * length ?rs"
    then have "70 * length ?rs < 100 * ?n" by simp
    then have "70 * rat_of_nat (length ?rs) < 100 * rat_of_nat ?n"
      by (metis of_nat_less_iff of_nat_mult of_nat_numeral)
    then have "rat_of_nat ?n / rat_of_nat (length ?rs) > 70 / 100"
      using h by (simp add: field_simps)
    then show "\<not> has_column d ''Cabin''" using 1 by simp
  qed
  have 5: "100 * ?n = 69 * length ?rs \<longrightarrow>
      has_column d ''Cabin'' \<and> map Cabin (rows d) = map Cabin ?rs"
  proof
    assume h: "100 * ?n = 69 * length ?rs"
    then have "100 * ?n \<le> 70 * length ?rs" by simp
    then have le: "100 * rat_of_nat ?n \<le> 70 * rat_of_nat (length ?rs)"
      by (metis of_nat_le_iff of_nat_mult of_nat_numeral)
    have "\<not> rat_of_nat ?n / rat_of_nat (length ?rs) > 70 / 100"
    proof (cases "length ?rs = 0")
      case True
      then show ?thesis by simp
    next
      case False
      then show ?thesis using le by (simp add: field_simps)
    qed
    then show "has_column d ''Cabin'' \<and> map Cabin (rows d) = map Cabin ?rs"
      using 1 3 by simp
  qed
  have 6: "distinct (rows df) \<longrightarrow> drop_duplicates (rows df) = rows df"
    by (simp add: drop_duplicates_distinct)
  show ?thesis using 1 2 3 4 5 6 by blast
qed

theorem cabin_drop_threshold_witness:
  "clean_data (cabin_frame 71) = Inr (cabin_frame_dropped, cabin_log True 0)
   \<and> has_column (cabin_frame 71) ''Cabin''
   \<and> distinct (rows (cabin_frame 71))
   \<and> drop_duplicates (rows (cabin_frame 71)) = rows (cabin_frame 71)
   \<and> drop_duplicates (rows (cabin_frame 71)) \<noteq> []
   \<and> 100 * length (filter (\<lambda>r. Cabin r = None) (drop_duplicates (rows (cabin_frame 71))))
        = 71 * length (drop_duplicates (rows (cabin_frame 71)))
   \<and> \<not> has_column cabin_frame_dropped ''Cabin''
   \<and> clean_data (cabin_frame 69) = Inr (cabin_frame 69, cabin_log False 69)
   \<and> has_column (cabin_frame 69) ''Cabin''
   \<and> 100 * length (filter (\<lambda>r. Cabin r = None) (drop_duplicates (rows (cabin_frame 69))))
        = 69 * length (drop_duplicates (rows (cabin_frame 69)))
   \<and> map Cabin (rows (cabin_frame 69)) = map Cabin (drop_duplicates (rows (cabin_frame 69)))"
proof -
  have c71: "has_column (cabin_frame 71) ''Cabin''" and c69: "has_column (cabin_frame 69) ''Cabin''"
    by (simp_all add: has_column_def cabin_frame_def)
  have n71: "drop_duplicates (rows (cabin_frame 71)) \<noteq> [] \<and>
      100 * length (filter (\<lambda>r. Cabin r = None) (drop_duplicates (rows (cabin_frame 71))))
        = 71 * length (drop_duplicates (rows (cabin_frame 71)))"
    by code_simp
  have n69: "100 * length (filter (\<lambda>r. Cabin r = None) (drop_duplicates (rows (cabin_frame 69))))
        = 69 * length (drop_duplicates (rows (cabin_frame 69)))"
    by code_simp
  have d71: "distinct (rows (cabin_frame 71))"
    by code_simp
  have t71: "\<not> has_column cabin_frame_dropped ''Cabin''"
    using cabin_drop_threshold[OF cabin_frame_71 c71] n71 by blast
  have u71: "drop_duplicates (rows (cabin_frame 71)) = rows (cabin_frame 71)"
    using cabin_drop_threshold[OF cabin_frame_71 c71] d71 by blast
  have t69: "map Cabin (rows (cabin_frame 69)) = map Cabin (drop_duplicates (rows (cabin_frame 69)))"
    using cabin_drop_threshold[OF cabin_frame_69 c69] n69 by blast
  show ?thesis using cabin_frame_71 cabin_frame_69 c71 c69 d71 u71 n71 n69 t71 t69 by blast
qed

section \<open>Age imputation\<close>

lemma clean_data_age:
  assumes "clean_data df = Inr (d, lg)" and "has_column df ''Age''"
    and "i < length (drop_duplicates (rows df))"
  shows "length (rows d) = length (drop_duplicates (rows df))"
    and "Age (rows d ! i) =
      fillna (age_median (drop_duplicates (rows df)) (drop_duplicates (rows df) ! i))
        (Age (drop_duplicates (rows df) ! i))"
proof -
  obtain F where F: "rows d = map F (drop_duplicates (rows df))"
    "\<And>r. Age (F r) = (if has_column df ''Age''
        then fillna (age_median (drop_duplicates (rows df)) r) (Age r) else Age r)"
    using clean_data_rows[OF assms(1)] by blast
  show "length (rows d) = length (drop_duplicates (rows df))" unfolding F(1) by simp
  show "Age (rows d ! i) =
      fillna (age_median (drop_duplicates (rows df)) (drop_duplicates (rows df) ! i))
        (Age (drop_duplicates (rows df) ! i))"
    unfolding F(1) using assms(2,3) by (simp add: F(2))
qed

text \<open>
  C3. A record with a class and a sex whose age is missing gets the median of the ages
  present in its (class, sex) group: the value \<open>median\<close> computes, which has at least half
  of the group's known ages on either side; when the group has exactly one known age, it
  gets that age.  (The records are those left after duplicates are removed.)
\<close>

theorem missing_age_gets_group_median:
  assumes "clean_data df = Inr (d, lg)" and "has_column df ''Age''"
    and "i < length (drop_duplicates (rows df))"
    and "Age (drop_duplicates (rows df) ! i) = None"
    and "Pclass (drop_duplicates (rows df) ! i) = Some c"
    and "Sex (drop_duplicates (rows df) ! i) = Some s"
  shows "length (rows d) = length (drop_duplicates (rows df))
     \<and> Age (rows d ! i) =
         median (dropna (map Age (filter (\<lambda>r. Pclass r = Some c \<and> Sex r = Some s)
                                        (drop_duplicates (rows df)))))
     \<and> (\<forall>m. Age (rows d ! i) = Some m \<longrightarrow>
           is_median (dropna (map Age (filter (\<lambda>r. Pclass r = Some c \<and> Sex r = Some s)
                                             (drop_duplicates (rows df))))) m)
     \<and> (\<forall>a. dropna (map Age (filter (\<lambda>r. Pclass r = Some c \<and> Sex r = Some s)
                                     (drop_duplicates (rows df)))) = [a] \<longrightarrow>
           Age (rows d ! i) = Some a)"
proof -
  let ?rs = "drop_duplicates (rows df)"
  let ?g = "dropna (map Age (filter (\<lambda>r. Pclass r = Some c \<and> Sex r = Some s) ?rs))"
  have len: "length (rows d) = length ?rs" by (rule clean_data_age(1)[OF assms(1-3)])
  have age: "Age (rows d ! i) = median ?g"
    using clean_data_age(2)[OF assms(1-3)] assms(4-6)
    by (simp add: age_median_def group_ages_def)
  have med: "\<forall>m. Age (rows d ! i) = Some m \<longrightarrow> is_median ?g m"
    using age median_is_median by simp
  have one: "\<forall>a. ?g = [a] \<longrightarrow> Age (rows d ! i) = Some a"
    using age by (simp add: median_single)
  show ?thesis using len age med one by blast
qed

theorem missing_age_gets_group_median_witness:
  "clean_data two_groups = Inr (two_groups_cleaned, two_groups_log)
   \<and> has_column two_groups ''Age''
   \<and> Age (drop_duplicates (rows two_groups) ! 1) = None
   \<and> Pclass (drop_duplicates (rows two_groups) ! 1) = Some 1
   \<and> Sex (drop_duplicates (rows two_groups) ! 1) = Some ''female''
   \<and> dropna (map Age (filter (\<lambda>r. Pclass r = Some 1 \<and> Sex r = Some ''female'')
                              (drop_duplicates (rows two_groups)))) = [38]
   \<and> Age (rows two_groups_cleaned ! 1) = Some 38
   \<and> is_median [38] 38
   \<and> Age (drop_duplicates (rows two_groups) ! 3) = None
   \<and> Pclass (drop_duplicates (rows two_groups) ! 3) = Some 3
   \<and> Sex (drop_duplicates (rows two_groups) ! 3) = Some ''male''
   \<and> dropna (map Age (filter (\<lambda>r. Pclass r = Some 3 \<and> Sex r = Some ''male'')
                              (drop_duplicates (rows two_groups)))) = [22]
   \<and> Age (rows two_groups_cleaned ! 3) = Some 22"
proof -
  have c: "has_column two_groups ''Age''"
    by (simp add: has_column_def two_groups_def raw_columns_def)
  have rs: "drop_duplicates (rows two_groups) = rows two_groups"
    by code_simp
  have l1: "1 < length (drop_duplicates (rows two_groups))"
    and l3: "3 < length (drop_duplicates (rows two_groups))"
    unfolding rs by (simp_all add: two_groups_def)
  have r1: "Age (drop_duplicates (rows two_groups) ! 1) = None"
    "Pclass (drop_duplicates (rows two_groups) ! 1) = Some 1"
    "Sex (drop_duplicates (rows two_groups) ! 1) = Some ''female''"
    unfolding rs by (simp_all add: two_groups_def raw_row_def)
  have r3: "Age (drop_duplicates (rows two_groups) ! 3) = None"
    "Pclass (drop_duplicates (rows two_groups) ! 3) = Some 3"
    "Sex (drop_duplicates (rows two_groups) ! 3) = Some ''male''"
    unfolding rs by (simp_all add: two_groups_def raw_row_def)
  have g1: "dropna (map Age (filter (\<lambda>r. Pclass r = Some 1 \<and> Sex r = Some ''female'')
                              (drop_duplicates (rows two_groups)))) = [38]"
    unfolding rs by (simp add: two_groups_def raw_row_def)
  have g3: "dropna (map Age (filter (\<lambda>r. Pclass r = Some 3 \<and> Sex r = Some ''male'')
                              (drop_duplicates (rows two_groups)))) = [22]"
    unfolding rs by (simp add: two_groups_def raw_row_def)
  have a1: "Age (rows two_groups_cleaned ! 1) = Some 38 \<and> is_median [38] 38"
    using missing_age_gets_group_median[OF two_groups_clean c l1 r1] g1 by auto
  have a3: "Age (rows two_groups_cleaned ! 3) = Some 22"
    using missing_age_gets_group_median[OF two_groups_clean c l3 r3] g3 by auto
  show ?thesis using two_groups_clean c r1 r3 g1 g3 a1 a3 by blast
qed

text \<open>
  C10. When every age of a (class, sex) group is missing, the ages of its records are
  still missing after cleaning: there is no fallback.
\<close>

theorem group_without_ages_stays_missing:
  assumes "clean_data df = Inr (d, lg)" and "has_column df ''Age''"
    and "i < length (drop_duplicates (rows df))"
    and "\<forall>r \<in> set (drop_duplicates (rows df)).
           Pclass r = Pclass (drop_duplicates (rows df) ! i)
           \<and> Sex r = Sex (drop_duplicates (rows df) ! i) \<longrightarrow> Age r = None"
  shows "length (rows d) = length (drop_duplicates (rows df)) \<and> Age (rows d ! i) = None"
proof -
  let ?rs = "drop_duplicates (rows df)"
  have own: "Age (?rs ! i) = None" using assms(3,4) by simp
  have "age_median ?rs (?rs ! i) = None"
    unfolding age_median_None using assms(4) by auto
  then have "Age (rows d ! i) = None"
    using clean_data_age(2)[OF assms(1-3)] own by simp
  then show ?thesis using clean_data_age(1)[OF assms(1-3)] by simp
qed

theorem group_without_ages_stays_missing_witness:
  "clean_data sample = Inr (sample_cleaned, sample_log) \<and> has_column sample ''Age''
   \<and> 5 < length (drop_duplicates (rows sample))
   \<and> Pclass (drop_duplicates (rows sample) ! 5) = Some 2
   \<and> Sex (drop_duplicates (rows sample) ! 5) = Some ''male''
   \<and> map Age (filter (\<lambda>r. Pclass r = Some 2 \<and> Sex r = Some ''male'')
                       (drop_duplicates (rows sample))) = [None]
   \<and> Age (rows sample_cleaned ! 5) = None"
proof -
  have c: "has_column sample ''Age''"
    by (simp add: has_column_def sample_def raw_columns_def)
  have rs: "drop_duplicates (rows sample) = rows sample"
    by code_simp
  have l: "5 < length (drop_duplicates (rows sample))"
    unfolding rs by (simp add: sample_def)
  have k: "Pclass (drop_duplicates (rows sample) ! 5) = Some 2"
    "Sex (drop_duplicates (rows sample) ! 5) = Some ''male''"
    unfolding rs by (simp_all add: sample_def raw_row_def)
  have g: "map Age (filter (\<lambda>r. Pclass r = Some 2 \<and> Sex r = Some ''male'')
                       (drop_duplicates (rows sample))) = [None]"
    unfolding rs by (simp add: sample_def raw_row_def)
  have "\<forall>a \<in> set (map Age (filter (\<lambda>r. Pclass r = Some 2 \<and> Sex r = Some ''male'')
                       (drop_duplicates (rows sample)))). a = None"
    unfolding g by simp
  then have g': "\<forall>r \<in> set (drop_duplicates (rows sample)).
      Pclass r = Pclass (drop_duplicates (rows sample) ! 5)
      \<and> Sex r = Sex (drop_duplicates (rows sample) ! 5) \<longrightarrow> Age r = None"
    using k by auto
  have "Age (rows sample_cleaned ! 5) = None"
    using group_without_ages_stays_missing[OF sample_clean c l g'] by simp
  then show ?thesis using sample_clean c l k g by blast
qed

section \<open>Missing values after cleaning\<close>

text \<open>
  C1 as stated: after cleaning no record has a missing sex, class, port, age, fare or survival
  flag.  On the sample frame the cleaner returns, and the sixth record, whose group has no
  known age, still has no age; the cleaner's own final count finds four missing values.
\<close>

theorem missing_age_after_cleaning:
  "clean_data sample = Inr (sample_cleaned, sample_log)
   \<and> Age (rows sample_cleaned ! 5) = None
   \<and> remaining_nulls sample_log = 4"
  using sample_clean
  by (simp add: sample_cleaned_def sample_log_def cleaned_row_def raw_row_def)

text \<open>
  C1, amended.  When the cleaner returns on a frame with an age and a port column, then in
  every record the port is present; sex, class, fare and survival flag are as loaded; and the
  age is missing exactly when it was missing as loaded and the record's (class, sex) group
  has no known age (or the record has no class or no sex).  So a record that was loaded with
  sex, class, fare and survival flag, in a group with a known age, has none of the six fields
  missing.  (The records are those left after duplicates are removed.)
\<close>

theorem cleaned_fields_not_missing:
  assumes "clean_data df = Inr (d, lg)"
    and "has_column df ''Age''" and "has_column df ''Embarked''"
    and "i < length (drop_duplicates (rows df))"
  shows "length (rows d) = length (drop_duplicates (rows df))
     \<and> Embarked (rows d ! i) \<noteq> None
     \<and> (Age (rows d ! i) = None \<longleftrightarrow>
          Age (drop_duplicates (rows df) ! i) = None
          \<and> (\<forall>c s. Pclass (drop_duplicates (rows df) ! i) = Some c
                   \<and> Sex (drop_duplicates (rows df) ! i) = Some s \<longrightarrow>
                (\<forall>r \<in> set (drop_duplicates (rows df)).
                   Pclass r = Some c \<and> Sex r = Some s \<longrightarrow> Age r = None)))
     \<and> Sex (rows d ! i) = Sex (drop_duplicates (rows df) ! i)
     \<and> Pclass (rows d ! i) = Pclass (drop_duplicates (rows df) ! i)
     \<and> Fare (rows d ! i) = Fare (drop_duplicates (rows df) ! i)
     \<and> Survived (rows d ! i) = Survived (drop_duplicates (rows df) ! i)
     \<and> (Sex (drop_duplicates (rows df) ! i) \<noteq> None
          \<and> Pclass (drop_duplicates (rows df) ! i) \<noteq> None
          \<and> Fare (drop_duplicates (rows df) ! i) \<noteq> None
          \<and> Survived (drop_duplicates (rows df) ! i) \<noteq> None
          \<and> (\<exists>r \<in> set (drop_duplicates (rows df)).
                Pclass r = Pclass (drop_duplicates (rows df) ! i)
                \<and> Sex r = Sex (drop_duplicates (rows df) ! i) \<and> Age r \<noteq> None)
        \<longrightarrow> Sex (rows d ! i) \<noteq> None \<and> Pclass (rows d ! i) \<noteq> None
            \<and> Embarked (rows d ! i) \<noteq> None \<and> Age (rows d ! i) \<noteq> None
            \<and> Fare (rows d ! i) \<noteq> None \<and> Survived (rows d ! i) \<noteq> None)"
proof -
  let ?rs = "drop_duplicates (rows df)"
  let ?r = "?rs ! i"
  obtain F where F: "rows d = map F ?rs"
    "\<And>r. Survived (F r) = Survived r" "\<And>r. Pclass (F r) = Pclass r"
    "\<And>r. Sex (F r) = Sex r" "\<And>r. Fare (F r) = Fare r"
    "\<forall>r \<in> set ?rs. Embarked (F r) \<noteq> None"
    using clean_data_rows[OF assms(1)] assms(3) by blast
  have mem: "?r \<in> set ?rs" using assms(4) by simp
  have len: "length (rows d) = length ?rs" unfolding F(1) by simp
  have emb: "Embarked (rows d ! i) \<noteq> None"
    unfolding F(1) using assms(4) F(6) mem by simp
  have same: "Sex (rows d ! i) = Sex ?r" "Pclass (rows d ! i) = Pclass ?r"
    "Fare (rows d ! i) = Fare ?r" "Survived (rows d ! i) = Survived ?r"
    unfolding F(1) using assms(4) by (simp_all add: F(2-5))
  have age: "Age (rows d ! i) = fillna (age_median ?rs ?r) (Age ?r)"
    by (rule clean_data_age(2)[OF assms(1,2,4)])
  have age_iff: "Age (rows d ! i) = None \<longleftrightarrow>
      Age ?r = None \<and> (\<forall>c s. Pclass ?r = Some c \<and> Sex ?r = Some s \<longrightarrow>
        (\<forall>r \<in> set ?rs. Pclass r = Some c \<and> Sex r = Some s \<longrightarrow> Age r = None))"
    unfolding age using age_median_None[of ?rs ?r] by (cases "Age ?r") simp_all
  have all: "Sex ?r \<noteq> None \<and> Pclass ?r \<noteq> None \<and> Fare ?r \<noteq> None \<and> Survived ?r \<noteq> None
      \<and> (\<exists>r \<in> set ?rs. Pclass r = Pclass ?r \<and> Sex r = Sex ?r \<and> Age r \<noteq> None)
    \<longrightarrow> Sex (rows d ! i) \<noteq> None \<and> Pclass (rows d ! i) \<noteq> None
        \<and> Embarked (rows d ! i) \<noteq> None \<and> Age (rows d ! i) \<noteq> None
        \<and> Fare (rows d ! i) \<noteq> None \<and> Survived (rows d ! i) \<noteq> None"
    using emb same age_iff by auto
  show ?thesis using len emb age_iff same all by blast
qed

theorem cleaned_fields_not_missing_witness:
  "clean_data two_groups = Inr (two_groups_cleaned, two_groups_log)
   \<and> has_column two_groups ''Age'' \<and> has_column two_groups ''Embarked''
   \<and> 1 < length (drop_duplicates (rows two_groups))
   \<and> Age (drop_duplicates (rows two_groups) ! 1) = None
   \<and> Embarked (drop_duplicates (rows two_groups) ! 1) = None
   \<and> Sex (rows two_groups_cleaned ! 1) \<noteq> None \<and> Pclass (rows two_groups_cleaned ! 1) \<noteq> None
   \<and> Embarked (rows two_groups_cleaned ! 1) \<noteq> None \<and> Age (rows two_groups_cleaned ! 1) \<noteq> None
   \<and> Fare (rows two_groups_cleaned ! 1) \<noteq> None \<and> Survived (rows two_groups_cleaned ! 1) \<noteq> None"
proof -
  have c: "has_column two_groups ''Age''" "has_column two_groups ''Embarked''"
    by (simp_all add: has_column_def two_groups_def raw_columns_def)
  have rs: "drop_duplicates (rows two_groups) = rows two_groups"
    by code_simp
  have l: "1 < length (drop_duplicates (rows two_groups))"
    unfolding rs by (simp add: two_groups_def)
  have raw: "Age (drop_duplicates (rows two_groups) ! 1) = None"
    "Embarked (drop_duplicates (rows two_groups) ! 1) = None"
    unfolding rs by (simp_all add: two_groups_def raw_row_def)
  have h: "Sex (drop_duplicates (rows two_groups) ! 1) \<noteq> None
      \<and> Pclass (drop_duplicates (rows two_groups) ! 1) \<noteq> None
      \<and> Fare (drop_duplicates (rows two_groups) ! 1) \<noteq> None
      \<and> Survived (drop_duplicates (rows two_groups) ! 1) \<noteq> None
      \<and> (\<exists>r \<in> set (drop_duplicates (rows two_groups)).
            Pclass r = Pclass (drop_duplicates (rows two_groups) ! 1)
            \<and> Sex r = Sex (drop_duplicates (rows two_groups) ! 1) \<and> Age r \<noteq> None)"
    unfolding rs by (simp add: two_groups_def raw_row_def)
  have "Sex (rows two_groups_cleaned ! 1) \<noteq> None \<and> Pclass (rows two_groups_cleaned ! 1) \<noteq> None
      \<and> Embarked (rows two_groups_cleaned ! 1) \<noteq> None \<and> Age (rows two_groups_cleaned ! 1) \<noteq> None
      \<and> Fare (rows two_groups_cleaned ! 1) \<noteq> None \<and> Survived (rows two_groups_cleaned ! 1) \<noteq> None"
    using cleaned_fields_not_missing[OF two_groups_clean c l] h by blast
  then show ?thesis using two_groups_clean c l raw by blast
qed

section \<open>Fare groups\<close>



section \<open>Titles\<close>

text \<open>
  C5 as stated takes the title by the pattern "a word followed by a period, preceded by a
  space".  The name \<open>Smith, Mr.John\<close> of the sample frame has such a place, with the word
  \<open>Mr\<close>, and the cleaner gives the record no title: the pattern of the source also wants a
  space after the period.
\<close>

theorem title_needs_space_after_period:
  "spec_title_match ''Smith, Mr.John'' ''Smith,'' ''Mr'' ''John''
   \<and> extract_title ''Smith, Mr.John'' = None
   \<and> clean_data sample = Inr (sample_cleaned, sample_log)
   \<and> Name (rows sample_cleaned ! 5) = Some ''Smith, Mr.John''
   \<and> Title (rows sample_cleaned ! 5) = None"
proof -
  have "spec_title_match ''Smith, Mr.John'' ''Smith,'' ''Mr'' ''John''"
    by (simp add: spec_title_match_def is_letter_def)
  moreover have "extract_title ''Smith, Mr.John'' = None" by code_simp
  moreover have "Name (rows sample_cleaned ! 5) = Some ''Smith, Mr.John''"
    "Title (rows sample_cleaned ! 5) = None"
    by (simp_all add: sample_cleaned_def cleaned_row_def raw_row_def)
  ultimately show ?thesis using sample_clean by blast
qed

text \<open>
  C5, amended.  The title of a record is taken at the leftmost place of the name where a
  space, a non-empty run of letters, a period and a space follow one another: it is that run
  of letters, and it is missing when the name has no such place.  A title that fewer than ten
  records of the set have becomes \<open>Rare\<close>; a title that ten or more have is kept.
\<close>

theorem title_extraction_and_rare:
  assumes "clean_data df = Inr (d, lg)" and "has_column df ''Name''" and "r \<in> set (rows d)"
  shows "(case Option.bind (Name r) extract_title of
            None \<Rightarrow> Title r = None
          | Some w \<Rightarrow>
              Title r = Some (if length (filter (\<lambda>r'. Option.bind (Name r') extract_title = Some w)
                                                (rows d)) < 10
                              then ''Rare'' else w))
     \<and> (\<forall>n w. extract_title n = Some w \<longleftrightarrow>
           (\<exists>pre post. title_match n pre w post \<and>
              (\<forall>pre' w' post'. title_match n pre' w' post' \<longrightarrow> length pre \<le> length pre')))
     \<and> (\<forall>n. extract_title n = None \<longleftrightarrow> (\<forall>pre w post. \<not> title_match n pre w post))"
proof -
  let ?ts = "extracted_titles (rows d)"
  have t: "Title r = replace_rare (rare_titles ?ts) (Option.bind (Name r) extract_title)"
    by (rule post_title[OF assms])
  have 1: "case Option.bind (Name r) extract_title of
            None \<Rightarrow> Title r = None
          | Some w \<Rightarrow>
              Title r = Some (if length (filter (\<lambda>r'. Option.bind (Name r') extract_title = Some w)
                                                (rows d)) < 10
                              then ''Rare'' else w)"
  proof (cases "Option.bind (Name r) extract_title")
    case None
    then show ?thesis using t by (simp add: replace_rare_def)
  next
    case (Some w)
    then have "Some w \<in> set ?ts" using assms(3) by (force simp: extracted_titles_def)
    then have "Title r = Some (if length (filter (\<lambda>t. t = Some w) ?ts) < 10 then ''Rare'' else w)"
      using t Some by (simp add: replace_rare_Some)
    moreover have "length (filter (\<lambda>t. t = Some w) ?ts)
        = length (filter (\<lambda>r'. Option.bind (Name r') extract_title = Some w) (rows d))"
      by (simp add: extracted_titles_def filter_map o_def)
    ultimately show ?thesis using Some by simp
  qed
  show ?thesis using 1 extract_title_iff extract_title_None_iff by blast
qed

theorem title_extraction_and_rare_witness:
  "clean_data titles_frame = Inr (titles_cleaned, titles_log) \<and> has_column titles_frame ''Name''
   \<and> Name (rows titles_cleaned ! 0) = Some ''Kelly, Mr. James''
   \<and> title_match ''Kelly, Mr. James'' ''Kelly,'' ''Mr'' ''James''
   \<and> length (filter (\<lambda>r'. Option.bind (Name r') extract_title = Some ''Mr'') (rows titles_cleaned)) = 10
   \<and> Title (rows titles_cleaned ! 0) = Some ''Mr''
   \<and> Name (rows titles_cleaned ! 11) = Some ''Kelly, Mrs. Anna''
   \<and> length (filter (\<lambda>r'. Option.bind (Name r') extract_title = Some ''Mrs'') (rows titles_cleaned)) = 2
   \<and> Title (rows titles_cleaned ! 11) = Some ''Rare''"
proof -
  have c: "has_column titles_frame ''Name''"
    by (simp add: has_column_def titles_frame_def)
  have m0: "rows titles_cleaned ! 0 \<in> set (rows titles_cleaned)"
    and m11: "rows titles_cleaned ! 11 \<in> set (rows titles_cleaned)"
    by (rule nth_mem, simp add: titles_cleaned_def title_rows_def)+
  have n0: "Name (rows titles_cleaned ! 0) = Some ''Kelly, Mr. James''"
    and n11: "Name (rows titles_cleaned ! 11) = Some ''Kelly, Mrs. Anna''"
    by code_simp+
  have e0: "extract_title ''Kelly, Mr. James'' = Some ''Mr''"
    and e11: "extract_title ''Kelly, Mrs. Anna'' = Some ''Mrs''"
    by code_simp+
  have tm: "title_match ''Kelly, Mr. James'' ''Kelly,'' ''Mr'' ''James''"
    by (simp add: title_match_def is_letter_def)
  have k0: "length (filter (\<lambda>r'. Option.bind (Name r') extract_title = Some ''Mr'') (rows titles_cleaned)) = 10"
    and k11: "length (filter (\<lambda>r'. Option.bind (Name r') extract_title = Some ''Mrs'') (rows titles_cleaned)) = 2"
    by code_simp+
  have t0: "Title (rows titles_cleaned ! 0) = Some ''Mr''"
    using title_extraction_and_rare[OF titles_clean c m0] n0 e0 k0 by simp
  have t11: "Title (rows titles_cleaned ! 11) = Some ''Rare''"
    using title_extraction_and_rare[OF titles_clean c m11] n11 e11 k11 by simp
  show ?thesis using titles_clean c n0 n11 tm k0 k11 t0 t11 by blast
qed

section \<open>Survival by category\<close>



section \<open>Cleaning twice\<close>

text \<open>
  C9 as stated: cleaning an already cleaned set without missing values removes no duplicate
  and gives the set back.  In the frame \<open>twins\<close> a passenger is recorded twice, one record
  lacking the age.  The first run keeps both records, since they differ, and fills the age;
  the cleaned set has no missing value and six records, two of them now equal.  The second
  run removes one of them.
\<close>

theorem second_run_removes_filled_twin:
  "clean_data twins = Inr (twins_cleaned, rerun_log 0 1)
   \<and> total_nulls twins_cleaned = 0
   \<and> length (rows twins_cleaned) = 6
   \<and> clean_data twins_cleaned = Inr (twins_recleaned, rerun_log 1 0)
   \<and> duplicates_removed (rerun_log 1 0) = 1
   \<and> length (rows twins_recleaned) = 5
   \<and> twins_recleaned \<noteq> twins_cleaned"
proof -
  have n: "total_nulls twins_cleaned = 0" by code_simp
  have l6: "length (rows twins_cleaned) = 6" by (simp add: twins_cleaned_def)
  have l5: "length (rows twins_recleaned) = 5" by (simp add: twins_recleaned_def)
  have ne: "twins_recleaned \<noteq> twins_cleaned" using l5 l6 by auto
  have r: "duplicates_removed (rerun_log 1 0) = 1" by (simp add: rerun_log_def)
  show ?thesis using twins_clean twins_clean_again n l6 l5 ne r by blast
qed

text \<open>
  C9, amended.  When a cleaned set has no missing value and no two equal records, cleaning
  it again gives the same set back, with no duplicate removed, no age and no port filled and
  no column dropped.
\<close>

theorem clean_data_idempotent:
  assumes "clean_data df = Inr (d, lg)" and "total_nulls d = 0" and "distinct (rows d)"
  shows "clean_data d =
     Inr (d, \<lparr>duplicates_removed = 0,
              age_nulls = (if has_column d ''Age'' then Some 0 else None),
              embarked_nulls = (if has_column d ''Embarked'' then Some 0 else None),
              cabin_dropped = False, remaining_nulls = 0\<rparr>)"
proof -
  note s = rerun_steps[OF assms]
  show ?thesis
    unfolding clean_data_def Let_def s(1) s(2) s(3) by (simp add: s(4-9) assms(2))
qed

theorem clean_data_idempotent_witness:
  "clean_data twins_cleaned = Inr (twins_recleaned, rerun_log 1 0)
   \<and> total_nulls twins_recleaned = 0 \<and> distinct (rows twins_recleaned)
   \<and> has_column twins_recleaned ''Age'' \<and> has_column twins_recleaned ''Embarked''
   \<and> clean_data twins_recleaned = Inr (twins_recleaned, rerun_log 0 0)"
proof -
  have n: "total_nulls twins_recleaned = 0" by code_simp
  have d: "distinct (rows twins_recleaned)" by code_simp
  have c: "has_column twins_recleaned ''Age''" "has_column twins_recleaned ''Embarked''"
    by (simp_all add: has_column_def twins_recleaned_def kept_columns_def raw_columns_def)
  have "clean_data twins_recleaned = Inr (twins_recleaned, rerun_log 0 0)"
    using clean_data_idempotent[OF twins_clean_again n d] c by (simp add: rerun_log_def)
  then show ?thesis using twins_clean_again n d c by blast
qed

end
